theory Spec2Isabelle
  imports Complex_Main "HOL-Library.Word"
begin

section \<open>The flasher application (src/src/App.tsx) as a state-passing model\<close>

text \<open>
  The application keeps its session in mutable reference cells and component state
  (\<open>useRef\<close>, \<open>useState\<close>) and talks to the outside world through asynchronous calls:
  the Web Serial port, its reader and writer, the esptool-js loader and transport, timers,
  the JSON built-ins and crypto-js. The model makes the cells fields of one record,
  threads that record through every function, and takes everything the outside world
  decides from a second record, the environment of one operation: which external calls
  reject, what the port picker returns, what the device sends and when. Every
  \<open>await\<close> is a sequencing point, every rejection and every \<open>throw\<close> is the
  \<open>Inl\<close> branch of the result, and a \<open>finally\<close> block is a state update applied on
  both branches.

  Two conventions hold throughout. A function of the model gives the outcome of a call
  of the source function that runs alone, from its first statement to its return or
  throw, every promise it awaits being settled (fulfilled or rejected) by the
  environment: a call that awaits a promise that never settles has no outcome, and the
  interleaving of two handlers at their \<open>await\<close>s is modelled only where a
  definition says so. And a timer fires no earlier than its delay: how much later is the
  environment's choice.
\<close>

subsection \<open>Text: the string operations the code uses\<close>

text \<open>
  JavaScript strings are modelled as \<open>string\<close>, one \<open>char\<close> per code unit below 256
  (the line protocol is ASCII). \<open>is_space\<close> lists the white space and line terminators
  that \<open>String.prototype.trim\<close> removes in that range.
\<close>

definition newline :: char where
  "newline = CHR 0x0A"

definition is_space :: "char \<Rightarrow> bool" where
  "is_space c = (c \<in> set [CHR 0x09, CHR 0x0A, CHR 0x0B, CHR 0x0C, CHR 0x0D, CHR 0x20, CHR 0xA0])"

definition trim :: "string \<Rightarrow> string" where
  "trim s = rev (dropWhile is_space (rev (dropWhile is_space s)))"

fun starts_with :: "string \<Rightarrow> string \<Rightarrow> bool" where
  "starts_with s [] = True"
| "starts_with [] (c # cs) = False"
| "starts_with (x # xs) (c # cs) = (x = c \<and> starts_with xs cs)"

text \<open>\<open>s.includes(sub)\<close>: \<open>sub\<close> occurs in \<open>s\<close> as a contiguous block.\<close>

fun str_includes :: "string \<Rightarrow> string \<Rightarrow> bool" where
  "str_includes [] sub = (sub = [])"
| "str_includes (x # xs) sub = (starts_with (x # xs) sub \<or> str_includes xs sub)"

definition is_digit :: "char \<Rightarrow> bool" where
  "is_digit c = (c \<in> set ''0123456789'')"

definition digit_val :: "char \<Rightarrow> nat" where
  "digit_val c = of_char c - 48"

definition is_hex_digit :: "char \<Rightarrow> bool" where
  "is_hex_digit c = (c \<in> set ''0123456789abcdefABCDEF'')"

definition hex_val :: "char \<Rightarrow> nat" where
  "hex_val c = (if is_digit c then of_char c - 48
                else if c \<in> set ''abcdef'' then of_char c - 87 else of_char c - 55)"

text \<open>
  \<open>parseInt(baudrate)\<close> with no radix given: leading white space is skipped, an
  optional sign is read, then, after a prefix \<open>0x\<close> or \<open>0X\<close>, the longest run of
  hexadecimal digits, and otherwise the longest run of decimal digits; with no digit
  the result is NaN (\<open>None\<close>).
\<close>

definition parseInt :: "string \<Rightarrow> int option" where
  "parseInt s =
     (let t = dropWhile is_space s;
          neg = (t \<noteq> [] \<and> hd t = CHR ''-'');
          u = (if t \<noteq> [] \<and> (hd t = CHR ''-'' \<or> hd t = CHR ''+'') then tl t else t);
          hex = (starts_with u ''0x'' \<or> starts_with u ''0X'');
          ds = (if hex then takeWhile is_hex_digit (drop 2 u) else takeWhile is_digit u);
          n = (if hex then foldl (\<lambda>a c. 16 * a + int (hex_val c)) 0 ds
               else foldl (\<lambda>a c. 10 * a + int (digit_val c)) 0 ds)
      in if ds = [] then None else Some (if neg then - n else n))"

subsection \<open>The outside world\<close>

type_synonym port = nat

datatype transport = Transport port

datatype loader = ESPLoader transport "int option"

datatype writer = Writer port

datatype reader = Reader port

text \<open>
  The external calls of the program, with the arguments the claims speak about. The log
  of a run is the list of the calls made, in order.
\<close>

datatype ext_call =
    RequestPort
  | PortOpen "int option"
  | GetWriter
  | GetReader
  | ReaderCancel
  | ReaderReleaseLock
  | WriterClose
  | PortClose
  | LoaderMain
  | LoaderEraseFlash
  | LoaderWriteFlash string nat
  | LoaderAfter string
  | TransportDisconnect
  | WriterWrite string
  | ReaderRead
  | SetTimeout nat

text \<open>
  What the \<open>readerRef.current.read()\<close> of one loop iteration does: it is fulfilled
  after some milliseconds with \<open>{value, done}\<close> (\<open>value\<close> may be undefined), it
  rejects after some milliseconds, or it stays pending (a device that has nothing more to
  say never settles a read). The loop sees a read only through its race with a timer:
  what a read delivers after the timer has fired is never looked at.
\<close>

datatype read_event =
    ReadOk nat "string option" bool
  | ReadErr nat
  | ReadPending

datatype error =
    NativeSerialNotConnected
  | NoDeviceAvailable
  | NoPreferencesData
  | NoResponseReceived
  | UpdateFailed string
  | SyntaxError
  | TypeError
  | Rejected ext_call

text \<open>
  The environment of one operation. \<open>rejects c\<close>: the external call \<open>c\<close> rejects (or
  throws) when made. \<open>serialLib\<close>: whether the browser offers a serial library at
  all (\<open>navigator.serial\<close> or the polyfill); \<open>pickedPort\<close>: the port that
  \<open>requestPort\<close> resolves to.
  \<open>readable\<close>: whether \<open>serialPortRef.current.readable\<close> is a stream when
  \<open>closeNativeSerial\<close> looks at it. \<open>detectedChip\<close>: the result of the loader's
  \<open>main()\<close>. \<open>reports\<close>: the \<open>(written, total)\<close> pairs the loader passes to
  \<open>reportProgress\<close> during \<open>writeFlash\<close>. \<open>reads\<close>: the device's behaviour at the
  successive reads of one command exchange, silent once the list is used up.
  \<open>writeSettles\<close>: whether the promise of the awaited \<open>write\<close> of a command ever
  settles, and \<open>writeTime\<close>: the milliseconds it then takes. \<open>raceLate n\<close> and \<open>pauseLate n\<close>: how many milliseconds after their delay
  the 1000 ms timer and the 100 ms pause of read attempt number \<open>n\<close> of an exchange
  fire (attempts are numbered from 0); \<open>settleLate\<close>: the same for the settle delay of
  \<open>eraseFlash\<close> and \<open>programFlash\<close>.
  \<open>encode\<close> and \<open>decode\<close> are \<open>TextEncoder.encode\<close> and \<open>TextDecoder.decode\<close>;
  \<open>json_parse\<close> is \<open>JSON.parse\<close> (\<open>None\<close> when it throws a SyntaxError),
  \<open>json_stringify x\<close> is \<open>JSON.stringify(x)\<close> and \<open>json_pretty x\<close> is
  \<open>JSON.stringify(x, null, 2)\<close>. The type \<open>json\<close> stands for the values
  \<open>JSON.parse\<close> produces.
\<close>

datatype json =
    JNull
  | JBool bool
  | JNumber rat
  | JString string
  | JArray "json list"
  | JObject "(string \<times> json) list"

record env =
  rejects :: "ext_call \<Rightarrow> bool"
  serialLib :: bool
  pickedPort :: port
  readable :: bool
  detectedChip :: string
  reports :: "(nat \<times> nat) list"
  reads :: "read_event list"
  writeSettles :: bool
  writeTime :: nat
  raceLate :: "nat \<Rightarrow> nat"
  pauseLate :: "nat \<Rightarrow> nat"
  settleLate :: nat
  encode :: "string \<Rightarrow> string"
  decode :: "string \<Rightarrow> string"
  json_parse :: "string \<Rightarrow> json option"
  json_stringify :: "json \<Rightarrow> string"
  json_pretty :: "json \<Rightarrow> string"

subsection \<open>The state of the application\<close>

text \<open>
  The fields keep the names of the source: the state and reference cells of
  \<open>useSerialConnection\<close>, \<open>useFlashOperations\<close> and \<open>usePreferences\<close>, and the
  \<open>baudrate\<close> state of \<open>App\<close>. \<open>clock\<close> is \<open>Date.now()\<close> in milliseconds and
  \<open>iolog\<close> the external calls made so far. \<open>progress\<close> is a JavaScript number; the
  model computes it exactly (a division by zero, Infinity or NaN in JavaScript, is 0
  here).
\<close>

record app =
  baudrate :: string
  isConnected :: bool
  chip :: "string option"
  deviceRef :: "port option"
  transportRef :: "transport option"
  espLoaderRef :: "loader option"
  serialPortRef :: "port option"
  writerRef :: "writer option"
  readerRef :: "reader option"
  isErasing :: bool
  isProgramming :: bool
  progress :: rat
  preferences :: string
  isLoadingPrefs :: bool
  isUpdatingPrefs :: bool
  clock :: nat
  iolog :: "ext_call list"

text \<open>The state when the component is first rendered.\<close>

definition initial :: app where
  "initial = \<lparr> baudrate = ''115200'', isConnected = False, chip = None, deviceRef = None,
     transportRef = None, espLoaderRef = None, serialPortRef = None, writerRef = None,
     readerRef = None, isErasing = False, isProgramming = False, progress = 0,
     preferences = [], isLoadingPrefs = False, isUpdatingPrefs = False, clock = 0,
     iolog = [] \<rparr>"

subsection \<open>Asynchronous functions as state transformers with errors\<close>

type_synonym 'a io = "app \<Rightarrow> (error + 'a) \<times> app"

definition ok :: "'a \<Rightarrow> 'a io" where
  "ok x s = (Inr x, s)"

definition throw :: "error \<Rightarrow> 'a io" where
  "throw e s = (Inl e, s)"

definition bind :: "'a io \<Rightarrow> ('a \<Rightarrow> 'b io) \<Rightarrow> 'b io" where
  "bind m f s = (case m s of (Inl e, s') \<Rightarrow> (Inl e, s') | (Inr x, s') \<Rightarrow> f x s')"

text \<open>A block of statements: each runs when the ones before it did not throw.\<close>

fun steps :: "unit io list \<Rightarrow> unit io" where
  "steps [] = ok ()"
| "steps (m # ms) = bind m (\<lambda>_. steps ms)"

text \<open>\<open>try { m } finally { h }\<close> where \<open>h\<close> only sets state.\<close>

definition try_finally :: "'a io \<Rightarrow> (app \<Rightarrow> app) \<Rightarrow> 'a io" where
  "try_finally m h s = (case m s of (r, s') \<Rightarrow> (r, h s'))"

text \<open>An assignment to a cell, or a state setter.\<close>

definition modify :: "(app \<Rightarrow> app) \<Rightarrow> unit io" where
  "modify f s = (Inr (), f s)"

text \<open>\<open>if (c) { m }\<close> with the condition read from the state at that moment.\<close>

definition whenS :: "(app \<Rightarrow> bool) \<Rightarrow> unit io \<Rightarrow> unit io" where
  "whenS c m s = (if c s then m s else ok () s)"

text \<open>An awaited external call: it is logged, and rejects when the environment says so.\<close>

definition call :: "env \<Rightarrow> ext_call \<Rightarrow> unit io" where
  "call env c s =
     (if rejects env c then (Inl (Rejected c), s\<lparr>iolog := iolog s @ [c]\<rparr>)
      else (Inr (), s\<lparr>iolog := iolog s @ [c]\<rparr>))"

text \<open>An awaited external call that takes \<open>d\<close> milliseconds to settle.\<close>

definition call_taking :: "env \<Rightarrow> nat \<Rightarrow> ext_call \<Rightarrow> unit io" where
  "call_taking env d c s = call env c (s\<lparr>clock := clock s + d\<rparr>)"

text \<open>
  \<open>await new Promise((resolve) => setTimeout(resolve, n))\<close>, the settle delay of the
  flash operations: the timer fires \<open>n\<close> milliseconds later, or later still.
\<close>

definition sleep :: "env \<Rightarrow> nat \<Rightarrow> unit io" where
  "sleep env n s =
     (Inr (), s\<lparr>clock := clock s + n + settleLate env, iolog := iolog s @ [SetTimeout n]\<rparr>)"

subsection \<open>useSerialConnection\<close>

text \<open>
  Without a serial library \<open>serialLib?.requestPort({})\<close> is undefined: the cell is set
  to it and the call of \<open>open\<close> on it throws a TypeError.
\<close>

definition setupNativeSerial :: "env \<Rightarrow> unit io" where
  "setupNativeSerial env =
     steps [
       (if serialLib env
        then steps [call env RequestPort,
                    modify (\<lambda>s. s\<lparr>serialPortRef := Some (pickedPort env)\<rparr>)]
        else modify (\<lambda>s. s\<lparr>serialPortRef := None\<rparr>)),
       (\<lambda>s. case serialPortRef s of
               None \<Rightarrow> throw TypeError s
             | Some p \<Rightarrow>
                 steps [
                   (\<lambda>s. call env (PortOpen (parseInt (baudrate s))) s),
                   call env GetWriter,
                   modify (\<lambda>s. s\<lparr>writerRef := Some (Writer p)\<rparr>),
                   call env GetReader,
                   modify (\<lambda>s. s\<lparr>readerRef := Some (Reader p)\<rparr>),
                   modify (\<lambda>s. s\<lparr>deviceRef := serialPortRef s\<rparr>),
                   modify (\<lambda>s. s\<lparr>chip := Some ''Native Connection''\<rparr>)] s)]"

definition closeNativeSerial :: "env \<Rightarrow> unit io" where
  "closeNativeSerial env =
     steps [
       whenS (\<lambda>s. readerRef s \<noteq> None)
         (steps [call env ReaderCancel, call env ReaderReleaseLock,
                 modify (\<lambda>s. s\<lparr>readerRef := None\<rparr>)]),
       whenS (\<lambda>s. writerRef s \<noteq> None)
         (steps [call env WriterClose, modify (\<lambda>s. s\<lparr>writerRef := None\<rparr>)]),
       whenS (\<lambda>s. serialPortRef s \<noteq> None \<and> readable env)
         (steps [call env PortClose, modify (\<lambda>s. s\<lparr>serialPortRef := None\<rparr>)])]"

definition setupESPTool :: "env \<Rightarrow> string io" where
  "setupESPTool env s =
     (case deviceRef s of
        None \<Rightarrow> throw NoDeviceAvailable s
      | Some d \<Rightarrow>
          bind (steps [
                  modify (\<lambda>s. s\<lparr>transportRef := Some (Transport d)\<rparr>),
                  modify (\<lambda>s. s\<lparr>espLoaderRef :=
                     Some (ESPLoader (Transport d) (parseInt (baudrate s)))\<rparr>),
                  call env LoaderMain,
                  modify (\<lambda>s. s\<lparr>chip := Some (detectedChip env)\<rparr>)])
               (\<lambda>_. ok (detectedChip env)) s)"

definition cleanupESPTool :: "env \<Rightarrow> unit io" where
  "cleanupESPTool env =
     steps [
       whenS (\<lambda>s. transportRef s \<noteq> None)
         (steps [call env TransportDisconnect, modify (\<lambda>s. s\<lparr>transportRef := None\<rparr>)]),
       modify (\<lambda>s. s\<lparr>espLoaderRef := None\<rparr>)]"

definition connect :: "env \<Rightarrow> unit io" where
  "connect env = steps [setupNativeSerial env, modify (\<lambda>s. s\<lparr>isConnected := True\<rparr>)]"

definition disconnect :: "env \<Rightarrow> unit io" where
  "disconnect env =
     steps [
       closeNativeSerial env,
       cleanupESPTool env,
       modify (\<lambda>s. s\<lparr>isConnected := False\<rparr>),
       modify (\<lambda>s. s\<lparr>chip := None\<rparr>),
       modify (\<lambda>s. s\<lparr>deviceRef := None\<rparr>)]"

subsection \<open>sendCommand\<close>

text \<open>
  The race of \<open>readerRef.current.read()\<close> against the timer of one loop iteration,
  which fires \<open>fire\<close> milliseconds after the read was issued: after how many
  milliseconds \<open>Promise.race\<close> settles, and with which read result (\<open>None\<close> when it
  rejects: the timer fired, or the read itself rejected first). The read is issued before
  the timer is created, so a read that settles in the very millisecond in which the timer
  fires wins the race; a read that settles later loses it.
\<close>

definition promise_race :: "nat \<Rightarrow> read_event list \<Rightarrow> nat \<times> (string option \<times> bool) option" where
  "promise_race fire evs =
     (case evs of
        [] \<Rightarrow> (fire, None)
      | ReadOk d v dn # _ \<Rightarrow> if d \<le> fire then (d, Some (v, dn)) else (fire, None)
      | ReadErr d # _ \<Rightarrow> if d \<le> fire then (d, None) else (fire, None)
      | ReadPending # _ \<Rightarrow> (fire, None))"

text \<open>\<open>result.value?.length > 0\<close>.\<close>

definition has_bytes :: "string option \<Rightarrow> bool" where
  "has_bytes v = (case v of None \<Rightarrow> False | Some b \<Rightarrow> 0 < length b)"

definition bytes_of :: "string option \<Rightarrow> string" where
  "bytes_of v = (case v of None \<Rightarrow> [] | Some b \<Rightarrow> b)"

text \<open>\<open>response.includes("END") || response.includes("ERROR")\<close>.\<close>

definition terminated :: "string \<Rightarrow> bool" where
  "terminated response = (str_includes response ''END'' \<or> str_includes response ''ERROR'')"

text \<open>
  The \<open>while\<close> loop of \<open>sendCommand\<close>. \<open>evs\<close> is what the device still has to say
  and \<open>n\<close> the number of the read attempt. The budget is tested at the head of every
  iteration, and nowhere else. Each iteration issues a read and starts the 1000 ms timer;
  a fulfilled read appends its decoded bytes (when it has any) and leaves the loop on a
  marker or on \<open>done\<close>; a rejection of the race is caught and followed by the 100 ms
  pause.
\<close>

function readLoop ::
  "env \<Rightarrow> nat \<Rightarrow> nat \<Rightarrow> read_event list \<Rightarrow> string \<Rightarrow> app \<Rightarrow> string \<times> app" where
  "readLoop env startTime n evs response s =
     (if clock s - startTime < 2000 then
        (case promise_race (1000 + raceLate env n) evs of
           (d, Some (v, dn)) \<Rightarrow>
             (let s' = s\<lparr>clock := clock s + d, iolog := iolog s @ [ReaderRead, SetTimeout 1000]\<rparr>;
                  response' = (if has_bytes v then response @ decode env (bytes_of v) else response)
              in if has_bytes v \<and> terminated response' then (response', s')
                 else if dn then (response', s')
                 else readLoop env startTime (Suc n) (tl evs) response' s')
         | (d, None) \<Rightarrow>
             readLoop env startTime (Suc n) (tl evs) response
               (s\<lparr>clock := clock s + d + (100 + pauseLate env n),
                  iolog := iolog s @ [ReaderRead, SetTimeout 1000, SetTimeout 100]\<rparr>))
      else (response, s))"
  by pat_completeness auto
termination
  by (relation "measures [\<lambda>(env, startTime, n, evs, response, s). length evs,
                          \<lambda>(env, startTime, n, evs, response, s). 2000 + startTime - clock s]")
     (auto simp: promise_race_def split: list.splits read_event.splits if_splits)

text \<open>
  \<open>sendCommand\<close>: the guard, the awaited write of the command and a newline, then the
  loop, whose budget starts when the write has settled (\<open>startTime = Date.now()\<close>), and
  the trimmed response.
\<close>

definition sendCommand :: "env \<Rightarrow> string \<Rightarrow> string io" where
  "sendCommand env command s =
     (if writerRef s = None \<or> readerRef s = None then throw NativeSerialNotConnected s
      else bind (call_taking env (writeTime env) (WriterWrite (encode env (command @ [newline]))))
             (\<lambda>_ s1. case readLoop env (clock s1) 0 (reads env) [] s1 of
                        (response, s2) \<Rightarrow> ok (trim response) s2) s)"

text \<open>
  The call as a whole, \<open>None\<close> when it never returns. Of the promises that
  \<open>sendCommand\<close> awaits, only that of the write is bounded by no timer: every race is
  settled by its timer at the latest, and the pauses are timers.
\<close>

definition sendCommand_outcome :: "env \<Rightarrow> string \<Rightarrow> app \<Rightarrow> ((error + string) \<times> app) option" where
  "sendCommand_outcome env command s =
     (if writerRef s \<noteq> None \<and> readerRef s \<noteq> None \<and> \<not> writeSettles env then None
      else Some (sendCommand env command s))"

subsection \<open>useFlashOperations\<close>

definition eraseFlash :: "env \<Rightarrow> unit io" where
  "eraseFlash env =
     steps [
       modify (\<lambda>s. s\<lparr>isErasing := True\<rparr>),
       try_finally
         (steps [
            closeNativeSerial env,
            bind (setupESPTool env) (\<lambda>_. ok ()),
            whenS (\<lambda>s. espLoaderRef s \<noteq> None) (call env LoaderEraseFlash),
            cleanupESPTool env,
            sleep env 1000,
            setupNativeSerial env])
         (\<lambda>s. s\<lparr>isErasing := False\<rparr>)]"

text \<open>
  \<open>writeFlash\<close> of the loader: it reports progress chunk by chunk through the
  \<open>reportProgress\<close> callback, which sets \<open>progress\<close> to \<open>(written / total) * 100\<close>, and
  then resolves or rejects.
\<close>

definition reportProgress :: "rat \<Rightarrow> nat \<times> nat \<Rightarrow> rat" where
  "reportProgress p wt = (case wt of (written, tot) \<Rightarrow> (of_nat written / of_nat tot) * 100)"

definition writeFlash :: "env \<Rightarrow> string \<Rightarrow> unit io" where
  "writeFlash env fileData =
     steps [
       modify (\<lambda>s. s\<lparr>progress := foldl reportProgress (progress s) (reports env)\<rparr>),
       call env (LoaderWriteFlash fileData 0x10000)]"

definition programFlash :: "env \<Rightarrow> string \<Rightarrow> unit io" where
  "programFlash env fileData =
     steps [
       modify (\<lambda>s. s\<lparr>isProgramming := True\<rparr>),
       modify (\<lambda>s. s\<lparr>progress := 0\<rparr>),
       try_finally
         (steps [
            closeNativeSerial env,
            bind (setupESPTool env) (\<lambda>_. ok ()),
            whenS (\<lambda>s. espLoaderRef s \<noteq> None) (writeFlash env fileData),
            whenS (\<lambda>s. espLoaderRef s \<noteq> None) (call env (LoaderAfter ''hard_reset'')),
            cleanupESPTool env,
            sleep env 2000,
            setupNativeSerial env])
         (\<lambda>s. s\<lparr>isProgramming := False, progress := 0\<rparr>)]"

subsection \<open>usePreferences\<close>

definition getAllSettings :: "env \<Rightarrow> unit io" where
  "getAllSettings env =
     steps [
       modify (\<lambda>s. s\<lparr>isLoadingPrefs := True\<rparr>),
       try_finally
         (bind (sendCommand env ''GET_ALL_PREFS'')
            (\<lambda>response.
               if response \<noteq> [] then
                 (case json_parse env response of
                    Some jsonData \<Rightarrow> modify (\<lambda>s. s\<lparr>preferences := json_pretty env jsonData\<rparr>)
                  | None \<Rightarrow> modify (\<lambda>s. s\<lparr>preferences := response\<rparr>))
               else throw NoResponseReceived))
         (\<lambda>s. s\<lparr>isLoadingPrefs := False\<rparr>)]"

definition updateAllSettings :: "env \<Rightarrow> string io" where
  "updateAllSettings env s =
     (if trim (preferences s) = [] then throw NoPreferencesData s
      else bind (modify (\<lambda>s. s\<lparr>isUpdatingPrefs := True\<rparr>))
             (\<lambda>_. try_finally
                (\<lambda>s. case json_parse env (preferences s) of
                        None \<Rightarrow> throw SyntaxError s
                      | Some prefsData \<Rightarrow>
                          bind (sendCommand env (''SET_ALL_PREFS:'' @ json_stringify env prefsData))
                            (\<lambda>response.
                               if str_includes response ''ERROR''
                               then throw (UpdateFailed response)
                               else ok (''Response: '' @ response)) s)
                (\<lambda>s. s\<lparr>isUpdatingPrefs := False\<rparr>)) s)"

subsection \<open>The checksum passed to the loader\<close>

text \<open>
  Image data is a JavaScript binary string: a sequence of 16-bit code units.
  \<open>loadFirmware\<close> builds it from the bytes of the downloaded file, one
  \<open>String.fromCharCode\<close> per byte, appended in a loop.
\<close>

unbundle bit_operations_syntax

type_synonym byte = "8 word"

type_synonym code_unit = "16 word"

definition fromCharCode :: "byte \<Rightarrow> code_unit" where
  "fromCharCode b = ucast b"

definition binaryString :: "byte list \<Rightarrow> code_unit list" where
  "binaryString uint8Array = foldl (\<lambda>acc b. acc @ [fromCharCode b]) [] uint8Array"

text \<open>
  Modelled from the spec: crypto-js is not among the sources. The spec describes the
  reference checksum as MD5 over the raw image bytes, the string read as single-byte
  (Latin-1) characters, rendered as a lowercase hexadecimal digest. \<open>Latin1_parse\<close>
  takes the low byte of every code unit, \<open>hex_string\<close> writes two lowercase
  hexadecimal digits per byte, high nibble first. The digest function itself
  (\<open>CryptoJS.MD5\<close>) is a parameter of \<open>calculateMD5Hash\<close>.
\<close>

definition Latin1_parse :: "code_unit list \<Rightarrow> byte list" where
  "Latin1_parse img = map (\<lambda>c. ucast (c AND 0xFF)) img"

definition hex_digit :: "nat \<Rightarrow> char" where
  "hex_digit n = ''0123456789abcdef'' ! (n mod 16)"

definition hex_string :: "byte list \<Rightarrow> string" where
  "hex_string ds = concat (map (\<lambda>b. [hex_digit (unat b div 16), hex_digit (unat b mod 16)]) ds)"

definition calculateMD5Hash :: "(byte list \<Rightarrow> byte list) \<Rightarrow> code_unit list \<Rightarrow> string" where
  "calculateMD5Hash MD5 img = hex_string (MD5 (Latin1_parse img))"

subsection \<open>Session modes\<close>

text \<open>
  The source has no mode variable: the mode of a session is read off its cells. The
  session is Disconnected when \<open>isConnected\<close> is false, in Bootloader mode when it is
  connected and holds a loader, and in Native mode otherwise.
\<close>

datatype SessionMode = Disconnected | Native | Bootloader

definition mode :: "app \<Rightarrow> SessionMode" where
  "mode s = (if \<not> isConnected s then Disconnected
             else if espLoaderRef s \<noteq> None then Bootloader else Native)"

text \<open>Some serial port, reader or writer resource is held.\<close>

definition transport_handle_exists :: "app \<Rightarrow> bool" where
  "transport_handle_exists s =
     (serialPortRef s \<noteq> None \<or> readerRef s \<noteq> None \<or> writerRef s \<noteq> None)"

text \<open>Some part of the programmer adapter (the loader or its transport) is held.\<close>

definition adapter_exists :: "app \<Rightarrow> bool" where
  "adapter_exists s = (espLoaderRef s \<noteq> None \<or> transportRef s \<noteq> None)"

text \<open>The invariant of the data model, on the serial resources.\<close>

definition mode_invariant :: "app \<Rightarrow> bool" where
  "mode_invariant s =
     ((transport_handle_exists s = (mode s \<noteq> Disconnected)) \<and>
      (adapter_exists s = (mode s = Bootloader)))"

text \<open>The same invariant on the port object kept in \<open>deviceRef\<close>.\<close>

definition device_invariant :: "app \<Rightarrow> bool" where
  "device_invariant s =
     (((deviceRef s \<noteq> None) = (mode s \<noteq> Disconnected)) \<and>
      (adapter_exists s = (mode s = Bootloader)) \<and>
      ((espLoaderRef s \<noteq> None) = (transportRef s \<noteq> None)))"

text \<open>
  The states the application can be in between operations when its handlers run one
  after another, none being started while another is in flight: the first render, a
  change of the baud rate selection or of the preferences text, and the end of
  \<open>connect\<close>, \<open>disconnect\<close>, \<open>eraseFlash\<close>, \<open>programFlash\<close>, \<open>sendCommand\<close>,
  \<open>getAllSettings\<close> and \<open>updateAllSettings\<close> in any environment, whether they
  returned or threw. The application does not enforce this discipline: the Disconnect
  button stays enabled while \<open>eraseFlash\<close> or \<open>programFlash\<close> runs.
\<close>

inductive serially_reachable :: "app \<Rightarrow> bool" where
  r_initial: "serially_reachable initial"
| r_baudrate: "serially_reachable s \<Longrightarrow> serially_reachable (s\<lparr>baudrate := b\<rparr>)"
| r_connect: "serially_reachable s \<Longrightarrow> serially_reachable (snd (connect env s))"
| r_disconnect: "serially_reachable s \<Longrightarrow> serially_reachable (snd (disconnect env s))"
| r_erase: "serially_reachable s \<Longrightarrow> serially_reachable (snd (eraseFlash env s))"
| r_program: "serially_reachable s \<Longrightarrow> serially_reachable (snd (programFlash env fileData s))"
| r_preferences: "serially_reachable s \<Longrightarrow> serially_reachable (s\<lparr>preferences := p\<rparr>)"
| r_send: "serially_reachable s \<Longrightarrow> serially_reachable (snd (sendCommand env command s))"
| r_get: "serially_reachable s \<Longrightarrow> serially_reachable (snd (getAllSettings env s))"
| r_update: "serially_reachable s \<Longrightarrow> serially_reachable (snd (updateAllSettings env s))"

text \<open>
  One overlap of two handlers. \<open>programFlash_until_settle\<close> is \<open>programFlash\<close> from
  its first statement to the start of its settle delay, and \<open>programFlash_after_settle\<close>
  the rest: the delay, \<open>setupNativeSerial\<close>, then the \<open>finally\<close> block. While
  \<open>programFlash\<close> waits in that delay the Disconnect button is enabled;
  \<open>disconnect_during_settle\<close> is the state when the user clicks it as the delay
  starts and both handlers have run to their end, \<open>disconnect\<close> being through before
  the delay is over. (When the first half throws there is no delay, and the state is that
  after \<open>programFlash\<close> alone.)
\<close>

definition programFlash_until_settle :: "env \<Rightarrow> string \<Rightarrow> unit io" where
  "programFlash_until_settle env fileData =
     steps [
       modify (\<lambda>s. s\<lparr>isProgramming := True\<rparr>),
       modify (\<lambda>s. s\<lparr>progress := 0\<rparr>),
       closeNativeSerial env,
       bind (setupESPTool env) (\<lambda>_. ok ()),
       whenS (\<lambda>s. espLoaderRef s \<noteq> None) (writeFlash env fileData),
       whenS (\<lambda>s. espLoaderRef s \<noteq> None) (call env (LoaderAfter ''hard_reset'')),
       cleanupESPTool env]"

definition programFlash_after_settle :: "env \<Rightarrow> unit io" where
  "programFlash_after_settle env =
     try_finally (steps [sleep env 2000, setupNativeSerial env])
       (\<lambda>s. s\<lparr>isProgramming := False, progress := 0\<rparr>)"

definition disconnect_during_settle :: "env \<Rightarrow> env \<Rightarrow> string \<Rightarrow> app \<Rightarrow> app" where
  "disconnect_during_settle env env' fileData s =
     (case programFlash_until_settle env fileData s of
        (Inl e, t) \<Rightarrow> t\<lparr>isProgramming := False, progress := 0\<rparr>
      | (Inr _, t) \<Rightarrow> snd (programFlash_after_settle env (snd (disconnect env' t))))"

text \<open>A session with nothing held: no cell is set, no chip is shown.\<close>

definition idle :: "app \<Rightarrow> bool" where
  "idle s =
     (\<not> isConnected s \<and> chip s = None \<and> deviceRef s = None \<and> transportRef s = None \<and>
      espLoaderRef s = None \<and> serialPortRef s = None \<and> writerRef s = None \<and>
      readerRef s = None)"

definition baud_rates :: "string list" where
  "baud_rates = [''921600'', ''460800'', ''230400'', ''115200'']"

text \<open>The calls with which \<open>disconnect\<close> releases what the session holds.\<close>

definition release_calls :: "ext_call list" where
  "release_calls = [ReaderCancel, ReaderReleaseLock, WriterClose, PortClose, TransportDisconnect]"

subsection \<open>The calls an operation has to make\<close>

text \<open>
  The external calls that \<open>closeNativeSerial\<close>, \<open>disconnect\<close> and \<open>eraseFlash\<close>
  make, in order, from a session \<open>s\<close> when every one of them is accepted: a release
  call for each resource the session holds, and for \<open>eraseFlash\<close>, once the native
  serial is closed and when the session has a device, the chip detection, the erase, the
  exit from the bootloader and, when there is a serial library, the reopening of the
  port.
  \<open>first_rejected\<close> is the first call of such a list that the environment rejects,
  \<open>calls_until_rejected\<close> the list up to and including that call, and \<open>calls_made\<close>
  the external calls a run has added to the log, its timers aside.
\<close>

definition close_plan :: "env \<Rightarrow> app \<Rightarrow> ext_call list" where
  "close_plan env s =
     (if readerRef s \<noteq> None then [ReaderCancel, ReaderReleaseLock] else []) @
     (if writerRef s \<noteq> None then [WriterClose] else []) @
     (if serialPortRef s \<noteq> None \<and> readable env then [PortClose] else [])"

definition release_plan :: "env \<Rightarrow> app \<Rightarrow> ext_call list" where
  "release_plan env s =
     close_plan env s @ (if transportRef s \<noteq> None then [TransportDisconnect] else [])"

definition erase_work_plan :: "env \<Rightarrow> app \<Rightarrow> ext_call list" where
  "erase_work_plan env s =
     (if deviceRef s = None then []
      else [LoaderMain, LoaderEraseFlash, TransportDisconnect] @
           (if serialLib env
            then [RequestPort, PortOpen (parseInt (baudrate s)), GetWriter, GetReader]
            else []))"

definition erase_plan :: "env \<Rightarrow> app \<Rightarrow> ext_call list" where
  "erase_plan env s = close_plan env s @ erase_work_plan env s"

definition first_rejected :: "env \<Rightarrow> ext_call list \<Rightarrow> ext_call option" where
  "first_rejected env plan = find (rejects env) plan"

definition calls_until_rejected :: "env \<Rightarrow> ext_call list \<Rightarrow> ext_call list" where
  "calls_until_rejected env plan =
     takeWhile (\<lambda>c. \<not> rejects env c) plan @ take 1 (dropWhile (\<lambda>c. \<not> rejects env c) plan)"

fun is_timer :: "ext_call \<Rightarrow> bool" where
  "is_timer (SetTimeout n) = True"
| "is_timer c = False"

definition calls_made :: "app \<Rightarrow> app \<Rightarrow> ext_call list" where
  "calls_made s s' = filter (\<lambda>c. \<not> is_timer c) (drop (length (iolog s)) (iolog s'))"

subsection \<open>What a command exchange has seen after its first reads\<close>

text \<open>
  The observations below describe a run of the read loop from outside: the events of
  the first \<open>k\<close> reads (a silent device answers no read: its reads stay pending) and
  the event of read number \<open>j\<close>; for one read attempt, numbered \<open>n\<close>, the text it
  contributes, the time it takes, whether it reported \<open>done\<close>, and the calls it makes;
  and for a list of attempts numbered from \<open>n\<close> on, their text, time and calls, and
  whether the last of them reported \<open>done\<close>.
\<close>

definition silence :: read_event where
  "silence = ReadPending"

fun issued :: "read_event list \<Rightarrow> nat \<Rightarrow> read_event list" where
  "issued evs 0 = []"
| "issued [] (Suc k) = silence # issued [] k"
| "issued (e # evs) (Suc k) = e # issued evs k"

definition event_at :: "read_event list \<Rightarrow> nat \<Rightarrow> read_event" where
  "event_at evs j = (if j < length evs then evs ! j else silence)"

definition chunk_text :: "env \<Rightarrow> nat \<Rightarrow> read_event \<Rightarrow> string" where
  "chunk_text env n e =
     (case promise_race (1000 + raceLate env n) [e] of
        (d, Some (v, dn)) \<Rightarrow> if has_bytes v then decode env (bytes_of v) else []
      | (d, None) \<Rightarrow> [])"

definition duration :: "env \<Rightarrow> nat \<Rightarrow> read_event \<Rightarrow> nat" where
  "duration env n e =
     (case promise_race (1000 + raceLate env n) [e] of
        (d, Some r) \<Rightarrow> d
      | (d, None) \<Rightarrow> d + (100 + pauseLate env n))"

definition is_done :: "env \<Rightarrow> nat \<Rightarrow> read_event \<Rightarrow> bool" where
  "is_done env n e =
     (case promise_race (1000 + raceLate env n) [e] of
        (d, Some (v, dn)) \<Rightarrow> dn
      | (d, None) \<Rightarrow> False)"

definition read_calls :: "env \<Rightarrow> nat \<Rightarrow> read_event \<Rightarrow> ext_call list" where
  "read_calls env n e =
     (case promise_race (1000 + raceLate env n) [e] of
        (d, Some r) \<Rightarrow> [ReaderRead, SetTimeout 1000]
      | (d, None) \<Rightarrow> [ReaderRead, SetTimeout 1000, SetTimeout 100])"

fun accumulated :: "env \<Rightarrow> nat \<Rightarrow> read_event list \<Rightarrow> string" where
  "accumulated env n [] = []"
| "accumulated env n (e # es) = chunk_text env n e @ accumulated env (Suc n) es"

fun elapsed :: "env \<Rightarrow> nat \<Rightarrow> read_event list \<Rightarrow> nat" where
  "elapsed env n [] = 0"
| "elapsed env n (e # es) = duration env n e + elapsed env (Suc n) es"

fun loop_calls :: "env \<Rightarrow> nat \<Rightarrow> read_event list \<Rightarrow> ext_call list" where
  "loop_calls env n [] = []"
| "loop_calls env n (e # es) = read_calls env n e @ loop_calls env (Suc n) es"

fun ended_done :: "env \<Rightarrow> nat \<Rightarrow> read_event list \<Rightarrow> bool" where
  "ended_done env n [] = False"
| "ended_done env n [e] = is_done env n e"
| "ended_done env n (e # e' # es) = ended_done env (Suc n) (e' # es)"

text \<open>
  The event the next read meets, and what it means that the loop, started at \<open>start\<close>
  with \<open>response\<close> in state \<open>s\<close> at attempt number \<open>n\<close>, ends after exactly \<open>k\<close>
  reads: its result is the response extended by what these reads brought, the clock and
  the log have advanced by their time and calls, no read was issued once a marker was
  there, the budget was used up or a read had reported \<open>done\<close>, and the loop ended
  on a marker, on the budget, or on \<open>done\<close>.
\<close>

definition head_event :: "read_event list \<Rightarrow> read_event" where
  "head_event evs = (case evs of [] \<Rightarrow> silence | e # _ \<Rightarrow> e)"

definition loop_post ::
  "env \<Rightarrow> nat \<Rightarrow> nat \<Rightarrow> read_event list \<Rightarrow> string \<Rightarrow> app \<Rightarrow> nat \<Rightarrow> bool" where
  "loop_post env start n evs response s k =
     (readLoop env start n evs response s =
        (response @ accumulated env n (issued evs k),
         s\<lparr>clock := clock s + elapsed env n (issued evs k),
           iolog := iolog s @ loop_calls env n (issued evs k)\<rparr>) \<and>
      (\<forall>j<k. \<not> terminated (response @ accumulated env n (issued evs j)) \<and>
              clock s + elapsed env n (issued evs j) - start < 2000 \<and>
              \<not> ended_done env n (issued evs j)) \<and>
      (terminated (response @ accumulated env n (issued evs k)) \<or>
       2000 \<le> clock s + elapsed env n (issued evs k) - start \<or>
       ended_done env n (issued evs k)))"

subsection \<open>Reasoning about runs\<close>

text \<open>
  \<open>wp m Q E s\<close>: the run of \<open>m\<close> from \<open>s\<close> ends in a state that satisfies \<open>Q\<close>
  when it returns and \<open>E\<close> when it throws. \<open>core\<close> collects the cells that decide the
  mode of a session, and \<open>session_ok\<close> is the invariant on them: the port object is
  kept exactly while connected, loader and transport come together, and only in a
  connected session.
\<close>

definition wp :: "'a io \<Rightarrow> ('a \<Rightarrow> app \<Rightarrow> bool) \<Rightarrow> (error \<Rightarrow> app \<Rightarrow> bool) \<Rightarrow> app \<Rightarrow> bool" where
  "wp m Q E s = (case m s of (Inl e, s') \<Rightarrow> E e s' | (Inr x, s') \<Rightarrow> Q x s')"

definition core :: "app \<Rightarrow> bool \<times> port option \<times> transport option \<times> loader option" where
  "core s = (isConnected s, deviceRef s, transportRef s, espLoaderRef s)"

definition session_ok :: "app \<Rightarrow> bool" where
  "session_ok s = (((deviceRef s = None) = (\<not> isConnected s)) \<and>
     ((espLoaderRef s = None) = (transportRef s = None)) \<and>
     (transportRef s = None \<or> isConnected s))"

text \<open>
  \<open>made s t cs\<close>: between \<open>s\<close> and \<open>t\<close> the log has grown by the calls \<open>cs\<close>,
  timers aside. \<open>kept\<close> collects the cells that closing the native serial does not
  touch.
\<close>

definition made :: "app \<Rightarrow> app \<Rightarrow> ext_call list \<Rightarrow> bool" where
  "made s t cs = (\<exists>l. iolog t = iolog s @ l \<and> filter (\<lambda>c. \<not> is_timer c) l = cs)"

definition kept ::
  "app \<Rightarrow> string \<times> bool \<times> string option \<times> port option \<times> transport option \<times> loader option" where
  "kept s = (baudrate s, isConnected s, chip s, deviceRef s, transportRef s, espLoaderRef s)"

text \<open>
  What holds after \<open>eraseFlash\<close> from \<open>s\<close>, when it returned (\<open>erase_ok\<close>) and when
  it threw \<open>e\<close> (\<open>erase_failed\<close>); and the same for \<open>disconnect\<close> (\<open>released\<close>,
  \<open>release_failed\<close>).
\<close>

definition erase_ok :: "env \<Rightarrow> app \<Rightarrow> app \<Rightarrow> bool" where
  "erase_ok env s t =
     (first_rejected env (erase_plan env s) = None \<and> deviceRef s \<noteq> None \<and> serialLib env \<and>
      made s t (erase_plan env s) \<and> \<not> isErasing t \<and> \<not> adapter_exists t)"

definition erase_failed :: "env \<Rightarrow> app \<Rightarrow> error \<Rightarrow> app \<Rightarrow> bool" where
  "erase_failed env s e t =
     (\<not> isErasing t \<and>
      (case first_rejected env (erase_plan env s) of
         None \<Rightarrow> made s t (erase_plan env s) \<and>
                 (if deviceRef s = None then e = NoDeviceAvailable
                  else e = TypeError \<and> \<not> serialLib env)
       | Some c \<Rightarrow> e = Rejected c \<and>
                 made s t (calls_until_rejected env (erase_plan env s)) \<and>
                 last (iolog t) = c \<and>
                 (c \<in> {LoaderMain, LoaderEraseFlash, TransportDisconnect} \<longrightarrow>
                    espLoaderRef t \<noteq> None \<and> transportRef t \<noteq> None \<and>
                    readerRef t = None \<and> writerRef t = None \<and>
                    isConnected t = isConnected s)))"

definition released :: "env \<Rightarrow> app \<Rightarrow> app \<Rightarrow> bool" where
  "released env s t =
     (first_rejected env (release_plan env s) = None \<and> made s t (release_plan env s) \<and>
      readerRef t = None \<and> writerRef t = None \<and> (readable env \<longrightarrow> serialPortRef t = None) \<and>
      transportRef t = None \<and> espLoaderRef t = None \<and> chip t = None \<and>
      deviceRef t = None \<and> \<not> isConnected t)"

definition release_failed :: "env \<Rightarrow> app \<Rightarrow> error \<Rightarrow> app \<Rightarrow> bool" where
  "release_failed env s e t =
     (\<exists>c. first_rejected env (release_plan env s) = Some c \<and> e = Rejected c \<and>
          made s t (calls_until_rejected env (release_plan env s)) \<and> last (iolog t) = c \<and>
          isConnected t = isConnected s \<and> chip t = chip s \<and> deviceRef t = deviceRef s)"

subsection \<open>Concrete environments and states\<close>

text \<open>
  Nothing rejects, the user picks port 1, the device never answers, the write takes no
  time and every timer fires on time.
\<close>

definition quiet_env :: env where
  "quiet_env = \<lparr> rejects = (\<lambda>c. False), serialLib = True, pickedPort = 1, readable = True,
     detectedChip = ''ESP32-S3'', reports = [(1024, 2048), (2048, 2048)], reads = [],
     writeSettles = True, writeTime = 0, raceLate = (\<lambda>n. 0), pauseLate = (\<lambda>n. 0),
     settleLate = 0,
     encode = (\<lambda>t. t), decode = (\<lambda>b. b), json_parse = (\<lambda>t. None),
     json_stringify = (\<lambda>j. ''null''), json_pretty = (\<lambda>j. ''null'') \<rparr>"

text \<open>The session after a successful \<open>connect\<close> from the first render.\<close>

definition connected :: app where
  "connected = snd (connect quiet_env initial)"

text \<open>
  A device that answers: a first chunk after 10 ms, a second one too late for its read
  (1500 ms), the end marker 450 ms into the third read, and more text that is never
  read.
\<close>

definition answering_env :: env where
  "answering_env = quiet_env\<lparr>reads :=
     [ReadOk 10 (Some ''pong '') False, ReadOk 1500 (Some ''late'') False,
      ReadOk 450 (Some ''END  '') False, ReadOk 5 (Some ''more'') False]\<rparr>"

text \<open>The loader rejects \<open>eraseFlash\<close>; the session that \<open>eraseFlash\<close> then leaves.\<close>

definition failing_erase_env :: env where
  "failing_erase_env = quiet_env\<lparr>rejects := (\<lambda>c. c = LoaderEraseFlash)\<rparr>"

definition stranded :: app where
  "stranded = snd (eraseFlash failing_erase_env connected)"

text \<open>The writer rejects \<open>close()\<close>.\<close>

definition failing_close_env :: env where
  "failing_close_env = quiet_env\<lparr>rejects := (\<lambda>c. c = WriterClose)\<rparr>"

text \<open>The port rejects \<open>close()\<close>; and a port whose \<open>readable\<close> is no longer set.\<close>

definition failing_port_env :: env where
  "failing_port_env = quiet_env\<lparr>rejects := (\<lambda>c. c = PortClose)\<rparr>"

definition unreadable_env :: env where
  "unreadable_env = quiet_env\<lparr>readable := False\<rparr>"

text \<open>
  A device that sends part of an answer after 10 ms, after which the stream is closed
  (the next read is fulfilled with \<open>{value: undefined, done: true}\<close>); and a device
  whose answer arrives exactly when the timer of the read fires.
\<close>

definition closing_env :: env where
  "closing_env = quiet_env\<lparr>reads := [ReadOk 10 (Some ''par'') False, ReadOk 5 None True]\<rparr>"

definition tie_env :: env where
  "tie_env = quiet_env\<lparr>reads := [ReadOk 1000 (Some ''END'') False]\<rparr>"

text \<open>
  A silent device, a write that takes 7 ms, and timers that are late: the first timer of
  every read attempt by 1 ms, the first pause by 1 ms.
\<close>

definition late_env :: env where
  "late_env = quiet_env\<lparr>writeTime := 7, raceLate := (\<lambda>n. 1),
     pauseLate := (\<lambda>n. if n = 0 then 1 else 0)\<rparr>"

text \<open>
  A device that answers \<open>GET_ALL_PREFS\<close> with the text \<open>[1]\<close> and closes the stream,
  with the two JSON built-ins defined on that text.
\<close>

definition prefs_env :: env where
  "prefs_env = quiet_env\<lparr>reads := [ReadOk 10 (Some ''[1]'') True],
     json_parse := (\<lambda>t. if t = ''[1]'' then Some (JArray [JNumber 1]) else None),
     json_pretty := (\<lambda>j. ''['' @ [newline] @ ''  1'' @ [newline] @ '']'')\<rparr>"

section \<open>Properties\<close>

subsection \<open>Sequencing\<close>

lemma bind_ok_right [simp]: "bind m ok = m"
  by (rule ext) (simp add: bind_def ok_def split: prod.splits sum.splits)

lemma fst_try_finally: "fst (try_finally m h s) = fst (m s)"
  by (simp add: try_finally_def split: prod.splits)

lemma snd_try_finally: "snd (try_finally m h s) = h (snd (m s))"
  by (simp add: try_finally_def split: prod.splits)

lemma snd_bind_modify: "snd (bind (modify f) g s) = snd (g () (f s))"
  by (simp add: bind_def modify_def)

lemma fst_bind_modify: "fst (bind (modify f) g s) = fst (g () (f s))"
  by (simp add: bind_def modify_def)

lemma parseInt_115200: "parseInt ''115200'' = Some 115200"
  by (simp add: parseInt_def is_space_def is_digit_def digit_val_def Let_def)

lemmas io_defs = ok_def throw_def bind_def try_finally_def modify_def whenS_def call_def
  call_taking_def sleep_def steps.simps

lemmas op_defs = setupNativeSerial_def closeNativeSerial_def setupESPTool_def cleanupESPTool_def
  connect_def disconnect_def eraseFlash_def programFlash_def writeFlash_def

subsection \<open>Rules for runs\<close>

lemma wp_ok [simp]: "wp (ok x) Q E = Q x"
  by (rule ext) (simp add: wp_def ok_def)

lemma wp_throw [simp]: "wp (throw e) Q E s = E e s"
  by (simp add: wp_def throw_def)

lemma wp_modify [simp]: "wp (modify f) Q E s = Q () (f s)"
  by (simp add: wp_def modify_def)

lemma wp_call [simp]:
  "wp (call env c) Q E s =
     (if rejects env c then E (Rejected c) (s\<lparr>iolog := iolog s @ [c]\<rparr>)
      else Q () (s\<lparr>iolog := iolog s @ [c]\<rparr>))"
  by (simp add: wp_def call_def)

lemma wp_call_taking [simp]:
  "wp (call_taking env d c) Q E s =
     (if rejects env c then E (Rejected c) (s\<lparr>clock := clock s + d, iolog := iolog s @ [c]\<rparr>)
      else Q () (s\<lparr>clock := clock s + d, iolog := iolog s @ [c]\<rparr>))"
  by (simp add: wp_def call_taking_def call_def)

lemma wp_sleep [simp]:
  "wp (sleep env n) Q E s =
     Q () (s\<lparr>clock := clock s + n + settleLate env, iolog := iolog s @ [SetTimeout n]\<rparr>)"
  by (simp add: wp_def sleep_def)

lemma wp_bind [simp]: "wp (bind m f) Q E = wp m (\<lambda>x. wp (f x) Q E) E"
  by (rule ext) (simp add: wp_def bind_def split: prod.splits sum.splits)

lemma wp_steps_Nil [simp]: "wp (steps []) Q E = Q ()"
  by (rule ext) simp

lemma wp_steps_Cons [simp]: "wp (steps (m # ms)) Q E = wp m (\<lambda>_. wp (steps ms) Q E) E"
  by simp

lemma wp_whenS [simp]: "wp (whenS c m) Q E s = (if c s then wp m Q E s else Q () s)"
  by (simp add: wp_def whenS_def ok_def)

lemma wp_try_finally [simp]:
  "wp (try_finally m h) Q E = wp m (\<lambda>x t. Q x (h t)) (\<lambda>e t. E e (h t))"
  by (rule ext) (simp add: wp_def try_finally_def split: prod.splits sum.splits)

lemma wp_cons:
  assumes "wp m Q' E' s" and "\<And>x t. Q' x t \<Longrightarrow> Q x t" and "\<And>e t. E' e t \<Longrightarrow> E e t"
  shows "wp m Q E s"
  using assms by (auto simp: wp_def split: prod.splits sum.splits)

lemma wp_snd: "wp m (\<lambda>_. P) (\<lambda>_. P) s = P (snd (m s))"
  by (auto simp: wp_def split: prod.splits sum.splits)

lemma wp_call_state [simp]:
  "wp (\<lambda>s. call env (c s) s) Q E s =
     (if rejects env (c s) then E (Rejected (c s)) (s\<lparr>iolog := iolog s @ [c s]\<rparr>)
      else Q () (s\<lparr>iolog := iolog s @ [c s]\<rparr>))"
  by (simp add: wp_def call_def)

lemma wp_run: "m s = (Inl e, s') \<Longrightarrow> wp m Q E s \<Longrightarrow> E e s'"
  by (simp add: wp_def)

lemma wp_case_option [simp]:
  "wp (\<lambda>s. case f s of None \<Rightarrow> a s | Some p \<Rightarrow> b p s) Q E s =
     (case f s of None \<Rightarrow> wp a Q E s | Some p \<Rightarrow> wp (b p) Q E s)"
  by (simp add: wp_def split: option.splits)

lemma wp_setupESPTool:
  "wp (setupESPTool env) Q E s =
     (case deviceRef s of
        None \<Rightarrow> E NoDeviceAvailable s
      | Some d \<Rightarrow>
          wp (bind (steps [
                  modify (\<lambda>s. s\<lparr>transportRef := Some (Transport d)\<rparr>),
                  modify (\<lambda>s. s\<lparr>espLoaderRef :=
                     Some (ESPLoader (Transport d) (parseInt (baudrate s)))\<rparr>),
                  call env LoaderMain,
                  modify (\<lambda>s. s\<lparr>chip := Some (detectedChip env)\<rparr>)])
               (\<lambda>_. ok (detectedChip env))) Q E s)"
  unfolding wp_def setupESPTool_def throw_def by (simp split: option.splits)


declare steps.simps [simp del]

subsection \<open>sendCommand\<close>

lemma issued_Suc: "issued evs (Suc k) = head_event evs # issued (tl evs) k"
  by (cases evs) (simp_all add: head_event_def)

lemma race_head: "promise_race fire evs = promise_race fire [head_event evs]"
  by (simp add: promise_race_def head_event_def silence_def split: list.splits read_event.splits)

lemma terminated_Nil [simp]: "\<not> terminated []"
  by (simp add: terminated_def)

lemma ended_done_Cons:
  "ended_done env n (e # es) = (if es = [] then is_done env n e else ended_done env (Suc n) es)"
  by (cases es) simp_all

lemma issued_Nil_iff [simp]: "(issued evs k = []) = (k = 0)"
  by (cases k; cases evs) simp_all

lemma readLoop_char:
  "\<not> terminated response \<Longrightarrow> \<exists>k. loop_post env start n evs response s k"
proof (induction env start n evs response s rule: readLoop.induct)
  case (1 env startTime n evs response s)
  let ?e = "head_event evs"
  show ?case
  proof (cases "clock s - startTime < 2000")
    case False
    then have "loop_post env startTime n evs response s 0"
      by (simp add: loop_post_def)
    then show ?thesis ..
  next
    case budget: True
    obtain d r where race: "promise_race (1000 + raceLate env n) evs = (d, r)"
      by (cases "promise_race (1000 + raceLate env n) evs")
    then have race': "promise_race (1000 + raceLate env n) [?e] = (d, r)"
      by (simp add: race_head [symmetric])
    show ?thesis
    proof (cases r)
      case None
      let ?s' = "s\<lparr>clock := clock s + d + (100 + pauseLate env n),
                   iolog := iolog s @ [ReaderRead, SetTimeout 1000, SetTimeout 100]\<rparr>"
      from "1.IH"(1) [OF budget race [symmetric]] None "1.prems"
      obtain k where k: "loop_post env startTime (Suc n) (tl evs) response ?s' k" by blast
      have e: "chunk_text env n ?e = []" "duration env n ?e = d + (100 + pauseLate env n)"
        "read_calls env n ?e = [ReaderRead, SetTimeout 1000, SetTimeout 100]" "\<not> is_done env n ?e"
        using race' None by (simp_all add: chunk_text_def duration_def read_calls_def is_done_def)
      have "loop_post env startTime n evs response s (Suc k)"
        unfolding loop_post_def
      proof (intro conjI allI impI)
        show "readLoop env startTime n evs response s =
          (response @ accumulated env n (issued evs (Suc k)),
           s\<lparr>clock := clock s + elapsed env n (issued evs (Suc k)),
             iolog := iolog s @ loop_calls env n (issued evs (Suc k))\<rparr>)"
          using k budget race None e
          by (simp add: loop_post_def issued_Suc add.assoc)
      next
        fix j assume "j < Suc k"
        then show "\<not> terminated (response @ accumulated env n (issued evs j))"
          using k "1.prems" e
          by (cases j) (simp_all add: loop_post_def issued_Suc)
      next
        fix j assume "j < Suc k"
        then show "clock s + elapsed env n (issued evs j) - startTime < 2000"
          using k budget e
          by (cases j) (simp_all add: loop_post_def issued_Suc add.assoc)
      next
        fix j assume "j < Suc k"
        then show "\<not> ended_done env n (issued evs j)"
          using k e
          by (cases j) (simp_all add: loop_post_def issued_Suc ended_done_Cons)
      next
        show "terminated (response @ accumulated env n (issued evs (Suc k))) \<or>
          2000 \<le> clock s + elapsed env n (issued evs (Suc k)) - startTime \<or>
          ended_done env n (issued evs (Suc k))"
          using k e
          by (cases k) (auto simp add: loop_post_def issued_Suc add.assoc)
      qed
      then show ?thesis ..
    next
      case (Some vd)
      obtain v dn where vd: "vd = (v, dn)" by (cases vd)
      let ?s' = "s\<lparr>clock := clock s + d, iolog := iolog s @ [ReaderRead, SetTimeout 1000]\<rparr>"
      let ?r' = "if has_bytes v then response @ decode env (bytes_of v) else response"
      have rr: "?r' = response @ chunk_text env n ?e"
        using race' Some vd by (simp add: chunk_text_def)
      have e: "duration env n ?e = d" "read_calls env n ?e = [ReaderRead, SetTimeout 1000]"
        "is_done env n ?e = dn"
        using race' Some vd by (simp_all add: duration_def read_calls_def is_done_def)
      have step: "readLoop env startTime n evs response s =
          (if has_bytes v \<and> terminated ?r' then (?r', ?s')
           else if dn then (?r', ?s')
           else readLoop env startTime (Suc n) (tl evs) ?r' ?s')"
        using budget race Some vd
        by (subst readLoop.simps) (simp add: Let_def del: readLoop.simps)
      show ?thesis
      proof (cases "(has_bytes v \<and> terminated ?r') \<or> dn")
        case True
        then have stop: "readLoop env startTime n evs response s =
            (response @ chunk_text env n ?e, ?s')"
          using step rr by auto
        from True "1.prems" have why: "terminated (response @ chunk_text env n ?e) \<or> dn"
          using rr by auto
        have "loop_post env startTime n evs response s (Suc 0)"
          unfolding loop_post_def
          using stop why budget e "1.prems"
          by (auto simp add: issued_Suc)
        then show ?thesis ..
      next
        case False
        then have nt: "\<not> terminated ?r'" using "1.prems" by auto
        from False have c1: "\<not> (has_bytes v \<and> terminated ?r')" and c2: "\<not> dn" by auto
        from "1.IH"(2) [OF budget race [symmetric] Some vd [symmetric] refl refl c1 c2 nt]
        obtain k where "loop_post env startTime (Suc n) (tl evs) ?r' ?s' k" by blast
        then have k: "loop_post env startTime (Suc n) (tl evs) (response @ chunk_text env n ?e) ?s' k"
          using rr by simp
        have go: "readLoop env startTime n evs response s =
            readLoop env startTime (Suc n) (tl evs) (response @ chunk_text env n ?e) ?s'"
          using step c1 c2 rr by auto
        have "loop_post env startTime n evs response s (Suc k)"
          unfolding loop_post_def
        proof (intro conjI allI impI)
          show "readLoop env startTime n evs response s =
            (response @ accumulated env n (issued evs (Suc k)),
             s\<lparr>clock := clock s + elapsed env n (issued evs (Suc k)),
               iolog := iolog s @ loop_calls env n (issued evs (Suc k))\<rparr>)"
            using k e unfolding go
            by (simp add: loop_post_def issued_Suc add.assoc del: readLoop.simps)
        next
          fix j assume "j < Suc k"
          then show "\<not> terminated (response @ accumulated env n (issued evs j))"
            using k "1.prems"
            by (cases j) (simp_all add: loop_post_def issued_Suc)
        next
          fix j assume "j < Suc k"
          then show "clock s + elapsed env n (issued evs j) - startTime < 2000"
            using k budget e
            by (cases j) (simp_all add: loop_post_def issued_Suc add.assoc)
        next
          fix j assume "j < Suc k"
          then show "\<not> ended_done env n (issued evs j)"
            using k e c2
            by (cases j) (simp_all add: loop_post_def issued_Suc ended_done_Cons)
        next
          show "terminated (response @ accumulated env n (issued evs (Suc k))) \<or>
            2000 \<le> clock s + elapsed env n (issued evs (Suc k)) - startTime \<or>
            ended_done env n (issued evs (Suc k))"
            using k e c2
            by (cases k) (auto simp add: loop_post_def issued_Suc add.assoc)
        qed
        then show ?thesis ..
      qed
    qed
  qed
qed

lemma length_issued [simp]: "length (issued evs k) = k"
  by (induction evs k rule: issued.induct) simp_all

lemma issued_snoc: "issued evs (Suc k) = issued evs k @ [event_at evs k]"
proof (induction evs k rule: issued.induct)
  case (1 evs)
  show ?case by (cases evs) (simp_all add: event_at_def)
next
  case (2 k)
  then show ?case by (simp add: event_at_def)
next
  case (3 e evs k)
  then show ?case by (simp add: event_at_def)
qed

lemma elapsed_snoc: "elapsed env n (es @ [x]) = elapsed env n es + duration env (n + length es) x"
  by (induction es arbitrary: n) simp_all

lemma accumulated_silent [simp]: "accumulated env n (issued [] k) = []"
  by (induction k arbitrary: n) (simp_all add: chunk_text_def promise_race_def silence_def)

lemma ended_done_silent [simp]: "\<not> ended_done env n (issued [] k)"
proof (induction k arbitrary: n)
  case 0
  show ?case by simp
next
  case (Suc k)
  show ?case
    using Suc [of "Suc n"]
    by (cases k) (simp_all add: is_done_def promise_race_def silence_def)
qed

lemma elapsed_silent:
  assumes "\<forall>j. raceLate env j = 0 \<and> pauseLate env j = 0"
  shows "elapsed env n (issued [] k) = 1100 * k"
  using assms
  by (induction k arbitrary: n) (simp_all add: duration_def promise_race_def silence_def)

lemma race_le: "fst (promise_race fire evs) \<le> fire"
  by (simp add: promise_race_def split: list.splits read_event.splits)

lemma duration_le: "duration env n e \<le> 1000 + raceLate env n + (100 + pauseLate env n)"
  using race_le [of "1000 + raceLate env n" "[e]"]
  by (cases "promise_race (1000 + raceLate env n) [e]") (auto simp: duration_def split: option.splits)

lemma sendCommand_unfold:
  assumes "writerRef s \<noteq> None" "readerRef s \<noteq> None"
    and "\<not> rejects env (WriterWrite (encode env (command @ [newline])))"
  shows "sendCommand env command s =
     (case readLoop env (clock s + writeTime env) 0 (reads env) []
             (s\<lparr>clock := clock s + writeTime env,
                iolog := iolog s @ [WriterWrite (encode env (command @ [newline]))]\<rparr>) of
        (response, s2) \<Rightarrow> (Inr (trim response), s2))"
proof -
  from assms obtain w r where "writerRef s = Some w" "readerRef s = Some r" by auto
  with assms(3) show ?thesis
    by (simp add: sendCommand_def io_defs del: readLoop.simps split: prod.splits)
qed

lemma sendCommand_rejected:
  assumes "writerRef s \<noteq> None" "readerRef s \<noteq> None"
    and "rejects env (WriterWrite (encode env (command @ [newline])))"
  shows "sendCommand env command s =
     (Inl (Rejected (WriterWrite (encode env (command @ [newline])))),
      s\<lparr>clock := clock s + writeTime env,
        iolog := iolog s @ [WriterWrite (encode env (command @ [newline]))]\<rparr>)"
proof -
  from assms obtain w r where "writerRef s = Some w" "readerRef s = Some r" by auto
  with assms(3) show ?thesis
    by (simp add: sendCommand_def io_defs del: readLoop.simps)
qed

lemma sendCommand_loop:
  assumes "writerRef s \<noteq> None" and "readerRef s \<noteq> None"
    and "\<not> rejects env (WriterWrite (encode env (command @ [newline])))"
  shows "\<exists>k. sendCommand env command s =
            (Inr (trim (accumulated env 0 (issued (reads env) k))),
             s\<lparr>clock := clock s + writeTime env + elapsed env 0 (issued (reads env) k),
               iolog := iolog s @ WriterWrite (encode env (command @ [newline])) #
                          loop_calls env 0 (issued (reads env) k)\<rparr>) \<and>
          (\<forall>j<k. \<not> terminated (accumulated env 0 (issued (reads env) j)) \<and>
                  elapsed env 0 (issued (reads env) j) < 2000 \<and>
                  \<not> ended_done env 0 (issued (reads env) j)) \<and>
          (terminated (accumulated env 0 (issued (reads env) k)) \<or>
           2000 \<le> elapsed env 0 (issued (reads env) k) \<or>
           ended_done env 0 (issued (reads env) k))"
proof -
  let ?w = "WriterWrite (encode env (command @ [newline]))"
  let ?s1 = "s\<lparr>clock := clock s + writeTime env, iolog := iolog s @ [?w]\<rparr>"
  obtain k where k: "loop_post env (clock s + writeTime env) 0 (reads env) [] ?s1 k"
    using readLoop_char [of "[]" env "clock s + writeTime env" 0 "reads env" ?s1] by auto
  show ?thesis
    using k sendCommand_unfold [OF assms]
    by (intro exI [of _ k]) (simp add: loop_post_def del: readLoop.simps)
qed

text \<open>
  C1 (amended). In Native mode (writer and reader both present) \<open>sendCommand\<close> first
  writes the command followed by a newline, and only then reads. When the write is
  rejected its error is propagated and no read is made. Otherwise the log of the run is
  that write followed by the calls of \<open>k\<close> reads, and the run returns, never an error,
  the trimmed concatenation of the decoded chunks of these \<open>k\<close> reads. No read is
  issued once the accumulated response contains \<open>END\<close> or \<open>ERROR\<close>, once 2000 ms
  have elapsed since the loop began, or once a read has reported \<open>done\<close>; and when the
  loop ends, the response contains a marker, or the budget is used up (the partial text
  is then what is returned), or the last read reported \<open>done\<close>.
\<close>

theorem sendCommand_native:
  assumes "writerRef s \<noteq> None" and "readerRef s \<noteq> None"
  shows "(rejects env (WriterWrite (encode env (command @ [newline]))) \<longrightarrow>
            sendCommand env command s =
              (Inl (Rejected (WriterWrite (encode env (command @ [newline])))),
               s\<lparr>clock := clock s + writeTime env,
                 iolog := iolog s @ [WriterWrite (encode env (command @ [newline]))]\<rparr>)) \<and>
         (\<not> rejects env (WriterWrite (encode env (command @ [newline]))) \<longrightarrow>
            (\<exists>k. sendCommand env command s =
                   (Inr (trim (accumulated env 0 (issued (reads env) k))),
                    s\<lparr>clock := clock s + writeTime env + elapsed env 0 (issued (reads env) k),
                      iolog := iolog s @ WriterWrite (encode env (command @ [newline])) #
                                 loop_calls env 0 (issued (reads env) k)\<rparr>) \<and>
                 (\<forall>j<k. \<not> terminated (accumulated env 0 (issued (reads env) j)) \<and>
                         elapsed env 0 (issued (reads env) j) < 2000 \<and>
                         \<not> ended_done env 0 (issued (reads env) j)) \<and>
                 (terminated (accumulated env 0 (issued (reads env) k)) \<or>
                  2000 \<le> elapsed env 0 (issued (reads env) k) \<or>
                  ended_done env 0 (issued (reads env) k))))"
  using sendCommand_loop [OF assms] sendCommand_rejected [OF assms] by blast

lemma connected_refs: "writerRef connected \<noteq> None" "readerRef connected \<noteq> None"
  by (simp_all add: connected_def io_defs op_defs quiet_env_def initial_def)

theorem sendCommand_native_witness:
  "writerRef connected \<noteq> None \<and> readerRef connected \<noteq> None \<and>
   \<not> rejects answering_env (WriterWrite (encode answering_env (''PING'' @ [newline]))) \<and>
   sendCommand answering_env ''PING'' connected =
     (Inr ''pong END'',
      connected\<lparr>clock := clock connected + 1560,
        iolog := iolog connected @
          [WriterWrite (''PING'' @ [newline]), ReaderRead, SetTimeout 1000,
           ReaderRead, SetTimeout 1000, SetTimeout 100, ReaderRead, SetTimeout 1000]\<rparr>) \<and>
   (\<exists>k. sendCommand answering_env ''PING'' connected =
            (Inr (trim (accumulated answering_env 0 (issued (reads answering_env) k))),
             connected\<lparr>clock := clock connected + writeTime answering_env +
                 elapsed answering_env 0 (issued (reads answering_env) k),
               iolog := iolog connected @
                 WriterWrite (encode answering_env (''PING'' @ [newline])) #
                 loop_calls answering_env 0 (issued (reads answering_env) k)\<rparr>) \<and>
          (\<forall>j<k. \<not> terminated (accumulated answering_env 0 (issued (reads answering_env) j)) \<and>
                  elapsed answering_env 0 (issued (reads answering_env) j) < 2000 \<and>
                  \<not> ended_done answering_env 0 (issued (reads answering_env) j)) \<and>
          (terminated (accumulated answering_env 0 (issued (reads answering_env) k)) \<or>
           2000 \<le> elapsed answering_env 0 (issued (reads answering_env) k) \<or>
           ended_done answering_env 0 (issued (reads answering_env) k))) \<and>
   rejects (quiet_env\<lparr>rejects := (\<lambda>c. c = WriterWrite (''PING'' @ [newline]))\<rparr>)
     (WriterWrite (encode (quiet_env\<lparr>rejects := (\<lambda>c. c = WriterWrite (''PING'' @ [newline]))\<rparr>)
        (''PING'' @ [newline]))) \<and>
   sendCommand (quiet_env\<lparr>rejects := (\<lambda>c. c = WriterWrite (''PING'' @ [newline]))\<rparr>) ''PING''
       connected =
     (Inl (Rejected (WriterWrite (''PING'' @ [newline]))),
      connected\<lparr>clock := clock connected,
        iolog := iolog connected @ [WriterWrite (''PING'' @ [newline])]\<rparr>)"
proof -
  let ?r = "quiet_env\<lparr>rejects := (\<lambda>c. c = WriterWrite (''PING'' @ [newline]))\<rparr>"
  have h3: "\<not> rejects answering_env (WriterWrite (encode answering_env (''PING'' @ [newline])))"
    by (simp add: answering_env_def quiet_env_def)
  have h4: "rejects ?r (WriterWrite (encode ?r (''PING'' @ [newline])))"
    "encode ?r (''PING'' @ [newline]) = ''PING'' @ [newline]" "writeTime ?r = 0"
    by (simp_all add: quiet_env_def)
  have run: "sendCommand answering_env ''PING'' connected =
     (Inr ''pong END'',
      connected\<lparr>clock := clock connected + 1560,
        iolog := iolog connected @
          [WriterWrite (''PING'' @ [newline]), ReaderRead, SetTimeout 1000,
           ReaderRead, SetTimeout 1000, SetTimeout 100, ReaderRead, SetTimeout 1000]\<rparr>)"
    by (simp add: sendCommand_def connected_def io_defs op_defs answering_env_def quiet_env_def
          initial_def promise_race_def has_bytes_def bytes_of_def terminated_def trim_def
          is_space_def)
  from sendCommand_native [OF connected_refs, of answering_env "''PING''"] h3
  have loop: "\<exists>k. sendCommand answering_env ''PING'' connected =
            (Inr (trim (accumulated answering_env 0 (issued (reads answering_env) k))),
             connected\<lparr>clock := clock connected + writeTime answering_env +
                 elapsed answering_env 0 (issued (reads answering_env) k),
               iolog := iolog connected @
                 WriterWrite (encode answering_env (''PING'' @ [newline])) #
                 loop_calls answering_env 0 (issued (reads answering_env) k)\<rparr>) \<and>
          (\<forall>j<k. \<not> terminated (accumulated answering_env 0 (issued (reads answering_env) j)) \<and>
                  elapsed answering_env 0 (issued (reads answering_env) j) < 2000 \<and>
                  \<not> ended_done answering_env 0 (issued (reads answering_env) j)) \<and>
          (terminated (accumulated answering_env 0 (issued (reads answering_env) k)) \<or>
           2000 \<le> elapsed answering_env 0 (issued (reads answering_env) k) \<or>
           ended_done answering_env 0 (issued (reads answering_env) k))"
    by blast
  from sendCommand_native [OF connected_refs, of ?r "''PING''"] h4(1)
  have "sendCommand ?r ''PING'' connected =
     (Inl (Rejected (WriterWrite (encode ?r (''PING'' @ [newline])))),
      connected\<lparr>clock := clock connected + writeTime ?r,
        iolog := iolog connected @ [WriterWrite (encode ?r (''PING'' @ [newline]))]\<rparr>)"
    by blast
  then have rejected: "sendCommand ?r ''PING'' connected =
     (Inl (Rejected (WriterWrite (''PING'' @ [newline]))),
      connected\<lparr>clock := clock connected,
        iolog := iolog connected @ [WriterWrite (''PING'' @ [newline])]\<rparr>)"
    by (simp only: h4(2,3) add_0_right)
  show ?thesis
    using connected_refs h3 h4(1) run loop rejected by (intro conjI)
qed

text \<open>
  C1, as stated, fails. The loop has a third exit, which the claim does not have: a read
  that reports \<open>done\<close>. When the device sends \<open>par\<close> after 10 ms and the stream is
  closed 5 ms later, \<open>sendCommand\<close> returns \<open>par\<close> after two reads and 15 ms, with
  no marker in the response and 1985 ms of the budget left.
\<close>

theorem sendCommand_done_counterexample:
  "sendCommand closing_env ''PING'' connected =
     (Inr ''par'',
      connected\<lparr>clock := clock connected + 15,
        iolog := iolog connected @
          [WriterWrite (''PING'' @ [newline]), ReaderRead, SetTimeout 1000,
           ReaderRead, SetTimeout 1000]\<rparr>) \<and>
   \<not> terminated ''par'' \<and> \<not> 2000 \<le> (15 :: nat)"
  by (simp add: sendCommand_def connected_def io_defs op_defs closing_env_def quiet_env_def
        initial_def promise_race_def has_bytes_def bytes_of_def terminated_def trim_def
        is_space_def)

lemma sendCommand_frame:
  "\<exists>c l. snd (sendCommand env command s) = s\<lparr>clock := c, iolog := l\<rparr>"
proof (cases "writerRef s \<noteq> None \<and> readerRef s \<noteq> None")
  case False
  then have "snd (sendCommand env command s) = s\<lparr>clock := clock s, iolog := iolog s\<rparr>"
    by (auto simp: sendCommand_def io_defs)
  then show ?thesis by blast
next
  case True
  show ?thesis
  proof (cases "rejects env (WriterWrite (encode env (command @ [newline])))")
    case r: True
    from sendCommand_rejected [OF _ _ r, of s] True show ?thesis
      by (metis snd_conv)
  next
    case False
    from sendCommand_loop [OF _ _ False, of s] True
    obtain k where "snd (sendCommand env command s) =
        s\<lparr>clock := clock s + writeTime env + elapsed env 0 (issued (reads env) k),
          iolog := iolog s @ WriterWrite (encode env (command @ [newline])) #
                     loop_calls env 0 (issued (reads env) k)\<rparr>"
      by auto
    then show ?thesis by blast
  qed
qed

lemma sendCommand_silent:
  assumes "writerRef s \<noteq> None" and "readerRef s \<noteq> None"
    and "\<not> rejects env (WriterWrite (encode env (command @ [newline])))"
    and "reads env = []"
  shows "fst (sendCommand env command s) = Inr []"
proof -
  from sendCommand_loop [OF assms(1-3)] obtain k where
    "fst (sendCommand env command s) = Inr (trim (accumulated env 0 (issued (reads env) k)))"
    by auto
  then show ?thesis by (simp add: assms(4) trim_def)
qed

text \<open>
  C2 (amended). In Native mode \<open>sendCommand\<close>, for \<open>PING\<close> as for any command,
  returns if and only if its awaited write settles. Once the write has been accepted it
  returns a string and never an error, after some number \<open>k\<close> of read attempts. No
  attempt starts once 2000 ms have elapsed since the loop began. Every attempt ends when
  its read settles or when its 1000 ms timer fires, whichever is first, the rejection
  being caught and followed by the 100 ms pause: it takes at most 1100 ms and the
  lateness of its two timers. The budget is tested between attempts
  only, so the loop ends less than 2000 ms plus the time of its last attempt after it
  began: less than 3100 ms when the timers fire on time. With a device that never
  responds the run returns the empty string, not before 2000 ms, and after exactly
  2200 ms when the timers fire on time.
\<close>

theorem sendCommand_time:
  assumes "writerRef s \<noteq> None" and "readerRef s \<noteq> None"
    and "\<not> rejects env (WriterWrite (encode env (command @ [newline])))"
  shows "\<exists>k. (sendCommand_outcome env command s \<noteq> None) = writeSettles env \<and>
     (writeSettles env \<longrightarrow>
        sendCommand_outcome env command s = Some (sendCommand env command s)) \<and>
     (\<exists>r. fst (sendCommand env command s) = Inr r) \<and>
     iolog (snd (sendCommand env command s)) =
       iolog s @ WriterWrite (encode env (command @ [newline])) #
         loop_calls env 0 (issued (reads env) k) \<and>
     clock (snd (sendCommand env command s)) =
       clock s + writeTime env + elapsed env 0 (issued (reads env) k) \<and>
     (\<forall>j<k. elapsed env 0 (issued (reads env) j) < 2000 \<and>
             duration env j (event_at (reads env) j) \<le>
               1000 + raceLate env j + (100 + pauseLate env j) \<and>
             elapsed env 0 (issued (reads env) (Suc j)) =
               elapsed env 0 (issued (reads env) j) + duration env j (event_at (reads env) j)) \<and>
     (\<forall>j. k = Suc j \<longrightarrow>
        elapsed env 0 (issued (reads env) k) < 3100 + raceLate env j + pauseLate env j) \<and>
     ((\<forall>j. raceLate env j = 0 \<and> pauseLate env j = 0) \<longrightarrow>
        elapsed env 0 (issued (reads env) k) < 3100) \<and>
     (reads env = [] \<longrightarrow>
        fst (sendCommand env command s) = Inr [] \<and>
        2000 \<le> elapsed env 0 (issued (reads env) k) \<and>
        ((\<forall>j. raceLate env j = 0 \<and> pauseLate env j = 0) \<longrightarrow>
           elapsed env 0 (issued (reads env) k) = 2200))"
proof -
  let ?el = "\<lambda>j. elapsed env 0 (issued (reads env) j)"
  from sendCommand_loop [OF assms] obtain k where
    run: "sendCommand env command s =
            (Inr (trim (accumulated env 0 (issued (reads env) k))),
             s\<lparr>clock := clock s + writeTime env + ?el k,
               iolog := iolog s @ WriterWrite (encode env (command @ [newline])) #
                          loop_calls env 0 (issued (reads env) k)\<rparr>)"
    and before: "\<forall>j<k. \<not> terminated (accumulated env 0 (issued (reads env) j)) \<and> ?el j < 2000 \<and>
                 \<not> ended_done env 0 (issued (reads env) j)"
    and exit: "terminated (accumulated env 0 (issued (reads env) k)) \<or> 2000 \<le> ?el k \<or>
               ended_done env 0 (issued (reads env) k)"
    by blast
  have step: "?el (Suc j) = ?el j + duration env j (event_at (reads env) j)" for j
    by (simp add: issued_snoc elapsed_snoc)
  have last: "?el k < 3100 + raceLate env j + pauseLate env j" if "k = Suc j" for j
  proof -
    from before that have "?el j < 2000" by simp
    with step [of j] duration_le [of env j "event_at (reads env) j"] that
    show ?thesis by simp
  qed
  have exact: "?el k < 3100" if z: "\<forall>j. raceLate env j = 0 \<and> pauseLate env j = 0"
  proof (cases k)
    case 0
    then show ?thesis by simp
  next
    case (Suc j)
    from last [OF Suc] z show ?thesis by simp
  qed
  have silent: "2000 \<le> ?el k" if "reads env = []"
    using exit that by simp
  have silent_exact: "?el k = 2200"
    if e: "reads env = []" and z: "\<forall>j. raceLate env j = 0 \<and> pauseLate env j = 0"
  proof -
    have el: "?el j = 1100 * j" for j
      using elapsed_silent [OF z, of 0 j] e by simp
    from silent [OF e] have "2000 \<le> 1100 * k" by (simp add: el)
    then have lo: "2 \<le> k" by simp
    have "k \<le> 2"
    proof (rule ccontr)
      assume "\<not> k \<le> 2"
      then have "2 < k" by simp
      with before have "?el 2 < 2000" by blast
      then show False by (simp add: el)
    qed
    with lo have "k = 2" by simp
    then show ?thesis by (simp add: el)
  qed
  have res: "\<exists>r. fst (sendCommand env command s) = Inr r"
    by (simp add: run)
  have clk: "clock (snd (sendCommand env command s)) = clock s + writeTime env + ?el k"
    "iolog (snd (sendCommand env command s)) =
       iolog s @ WriterWrite (encode env (command @ [newline])) #
         loop_calls env 0 (issued (reads env) k)"
    by (simp_all add: run)
  have each: "\<forall>j<k. ?el j < 2000 \<and>
             duration env j (event_at (reads env) j) \<le>
               1000 + raceLate env j + (100 + pauseLate env j) \<and>
             ?el (Suc j) = ?el j + duration env j (event_at (reads env) j)"
    using before duration_le step by blast
  have out: "(sendCommand_outcome env command s \<noteq> None) = writeSettles env"
    "writeSettles env \<longrightarrow> sendCommand_outcome env command s = Some (sendCommand env command s)"
    using assms(1,2) by (simp_all add: sendCommand_outcome_def)
  show ?thesis
    using out res clk each last exact silent silent_exact sendCommand_silent [OF assms]
    by (intro exI [of _ k]) blast
qed

lemma late_run:
  "sendCommand late_env ''PING'' connected =
     (Inr [],
      connected\<lparr>clock := clock connected + 2210,
        iolog := iolog connected @
          [WriterWrite (''PING'' @ [newline]), ReaderRead, SetTimeout 1000, SetTimeout 100,
           ReaderRead, SetTimeout 1000, SetTimeout 100]\<rparr>)"
  by (simp add: sendCommand_def connected_def io_defs op_defs late_env_def quiet_env_def
        initial_def promise_race_def trim_def)

theorem sendCommand_time_witness:
  "writerRef connected \<noteq> None \<and> readerRef connected \<noteq> None \<and>
   \<not> rejects late_env (WriterWrite (encode late_env (''PING'' @ [newline]))) \<and>
   reads late_env = [] \<and> writeTime late_env = 7 \<and> writeSettles late_env \<and>
   sendCommand_outcome late_env ''PING'' connected = Some (sendCommand late_env ''PING'' connected) \<and>
   fst (sendCommand late_env ''PING'' connected) = Inr [] \<and>
   clock (snd (sendCommand late_env ''PING'' connected)) = clock connected + 7 + 2203 \<and>
   (\<exists>k. clock (snd (sendCommand late_env ''PING'' connected)) =
          clock connected + writeTime late_env + elapsed late_env 0 (issued (reads late_env) k) \<and>
        2000 \<le> elapsed late_env 0 (issued (reads late_env) k))"
proof -
  have h: "\<not> rejects late_env (WriterWrite (encode late_env (''PING'' @ [newline])))"
    "reads late_env = []" "writeTime late_env = 7" "writeSettles late_env"
    by (simp_all add: late_env_def quiet_env_def)
  from sendCommand_time [OF connected_refs h(1)] h(2,4)
  have "sendCommand_outcome late_env ''PING'' connected =
          Some (sendCommand late_env ''PING'' connected) \<and>
        (\<exists>k. clock (snd (sendCommand late_env ''PING'' connected)) =
          clock connected + writeTime late_env + elapsed late_env 0 (issued (reads late_env) k) \<and>
        2000 \<le> elapsed late_env 0 (issued (reads late_env) k))"
    by blast
  then show ?thesis
    using connected_refs h by (simp add: late_run)
qed

text \<open>
  C2, as stated, fails: a device that never responds keeps \<open>send("PING")\<close> busy for
  2200 ms, beyond the 2000 ms of the claim, even when the write takes no time and every
  timer fires on time. The second read starts at 1100 ms, inside the budget, and its
  timer and pause end at 2200 ms.
\<close>

theorem ping_silent_device_counterexample:
  "fst (sendCommand quiet_env ''PING'' connected) = Inr [] \<and>
   clock (snd (sendCommand quiet_env ''PING'' connected)) = clock connected + 2200 \<and>
   \<not> clock (snd (sendCommand quiet_env ''PING'' connected)) \<le> clock connected + 2000"
  by (simp add: sendCommand_def connected_def io_defs op_defs quiet_env_def initial_def
        promise_race_def trim_def)

text \<open>
  A read that settles in the millisecond in which its timer fires is still read: the
  marker that arrives 1000 ms after the read was issued ends the exchange.
\<close>

lemma sendCommand_tie:
  "sendCommand tie_env ''PING'' connected =
     (Inr ''END'',
      connected\<lparr>clock := clock connected + 1000,
        iolog := iolog connected @
          [WriterWrite (''PING'' @ [newline]), ReaderRead, SetTimeout 1000]\<rparr>)"
  by (simp add: sendCommand_def connected_def io_defs op_defs tie_env_def quiet_env_def
        initial_def promise_race_def has_bytes_def bytes_of_def terminated_def trim_def
        is_space_def)

subsection \<open>usePreferences\<close>

text \<open>
  C8. When the preferences text does not parse as JSON, \<open>updateAllSettings\<close> fails
  before anything is sent: blank text is refused with "No preferences data!", any other
  text with the SyntaxError of \<open>JSON.parse\<close>. \<open>sendCommand\<close> is not reached: the
  log of external calls and the clock are those of the state before, and the state is
  otherwise unchanged but for the busy-flag, which the \<open>finally\<close> block clears.
\<close>

theorem updateAllSettings_rejects_malformed:
  assumes "json_parse env (preferences s) = None"
  shows "updateAllSettings env s =
           (if trim (preferences s) = [] then (Inl NoPreferencesData, s)
            else (Inl SyntaxError, s\<lparr>isUpdatingPrefs := False\<rparr>)) \<and>
         iolog (snd (updateAllSettings env s)) = iolog s \<and>
         clock (snd (updateAllSettings env s)) = clock s"
  using assms by (simp add: updateAllSettings_def io_defs)

theorem updateAllSettings_rejects_malformed_witness:
  "json_parse quiet_env (preferences (connected\<lparr>preferences := ''{oops''\<rparr>)) = None \<and>
   updateAllSettings quiet_env (connected\<lparr>preferences := ''{oops''\<rparr>) =
     (Inl SyntaxError, connected\<lparr>preferences := ''{oops'', isUpdatingPrefs := False\<rparr>) \<and>
   iolog (snd (updateAllSettings quiet_env (connected\<lparr>preferences := ''{oops''\<rparr>))) =
     iolog connected"
proof -
  have h: "json_parse quiet_env (preferences (connected\<lparr>preferences := ''{oops''\<rparr>)) = None"
    by (simp add: quiet_env_def)
  have t: "trim (preferences (connected\<lparr>preferences := ''{oops''\<rparr>)) \<noteq> []"
    by (simp add: trim_def is_space_def)
  from updateAllSettings_rejects_malformed [OF h] h t show ?thesis by simp
qed

lemma sendCommand_preferences:
  "preferences (snd (sendCommand env command s)) = preferences s"
  "isLoadingPrefs (snd (sendCommand env command s)) = isLoadingPrefs s"
proof -
  obtain c l where "snd (sendCommand env command s) = s\<lparr>clock := c, iolog := l\<rparr>"
    using sendCommand_frame by blast
  then show "preferences (snd (sendCommand env command s)) = preferences s"
    "isLoadingPrefs (snd (sendCommand env command s)) = isLoadingPrefs s"
    by simp_all
qed

text \<open>
  C10. \<open>getAllSettings\<close> always ends with \<open>isLoadingPrefs\<close> false. When the exchange
  returns the empty string it throws "No response received from device" and leaves the
  preferences text as it was; when it returns a non-empty response it succeeds, and the
  preferences text becomes the pretty-printed JSON if the response parses and the raw
  response otherwise. A device that stays silent for the whole exchange gives the first
  case.
\<close>

theorem getAllSettings_outcomes:
  "\<not> isLoadingPrefs (snd (getAllSettings env s)) \<and>
   (\<forall>response s1.
      sendCommand env ''GET_ALL_PREFS'' (s\<lparr>isLoadingPrefs := True\<rparr>) = (Inr response, s1) \<longrightarrow>
        (response = [] \<longrightarrow>
           fst (getAllSettings env s) = Inl NoResponseReceived \<and>
           preferences (snd (getAllSettings env s)) = preferences s) \<and>
        (response \<noteq> [] \<longrightarrow>
           fst (getAllSettings env s) = Inr () \<and>
           preferences (snd (getAllSettings env s)) =
             (case json_parse env response of
                Some jsonData \<Rightarrow> json_pretty env jsonData
              | None \<Rightarrow> response))) \<and>
   (writerRef s \<noteq> None \<and> readerRef s \<noteq> None \<and>
    \<not> rejects env (WriterWrite (encode env (''GET_ALL_PREFS'' @ [newline]))) \<and>
    reads env = [] \<longrightarrow>
      fst (getAllSettings env s) = Inl NoResponseReceived)"
proof (intro conjI allI impI)
  show "\<not> isLoadingPrefs (snd (getAllSettings env s))"
    by (simp add: getAllSettings_def steps.simps snd_bind_modify snd_try_finally)
next
  fix response s1
  assume run: "sendCommand env ''GET_ALL_PREFS'' (s\<lparr>isLoadingPrefs := True\<rparr>) = (Inr response, s1)"
  have p: "preferences s1 = preferences s"
    using sendCommand_preferences(1) [of env "''GET_ALL_PREFS''" "s\<lparr>isLoadingPrefs := True\<rparr>"] run
    by simp
  { assume "response = []"
    then show "fst (getAllSettings env s) = Inl NoResponseReceived"
      using run by (simp add: getAllSettings_def io_defs)
    from \<open>response = []\<close> show "preferences (snd (getAllSettings env s)) = preferences s"
      using run p by (simp add: getAllSettings_def io_defs) }
  { assume "response \<noteq> []"
    then show "fst (getAllSettings env s) = Inr ()"
      using run by (simp add: getAllSettings_def io_defs split: option.splits)
    from \<open>response \<noteq> []\<close> show "preferences (snd (getAllSettings env s)) =
             (case json_parse env response of
                Some jsonData \<Rightarrow> json_pretty env jsonData
              | None \<Rightarrow> response)"
      using run by (simp add: getAllSettings_def io_defs split: option.splits) }
next
  assume h: "writerRef s \<noteq> None \<and> readerRef s \<noteq> None \<and>
    \<not> rejects env (WriterWrite (encode env (''GET_ALL_PREFS'' @ [newline]))) \<and>
    reads env = []"
  then have "fst (sendCommand env ''GET_ALL_PREFS'' (s\<lparr>isLoadingPrefs := True\<rparr>)) = Inr []"
    using sendCommand_silent [of "s\<lparr>isLoadingPrefs := True\<rparr>" env "''GET_ALL_PREFS''"]
    by simp
  then show "fst (getAllSettings env s) = Inl NoResponseReceived"
    by (cases "sendCommand env ''GET_ALL_PREFS'' (s\<lparr>isLoadingPrefs := True\<rparr>)")
       (simp add: getAllSettings_def io_defs)
qed

theorem getAllSettings_outcomes_witness:
  "fst (getAllSettings quiet_env connected) = Inl NoResponseReceived \<and>
   preferences (snd (getAllSettings quiet_env connected)) = preferences connected \<and>
   \<not> isLoadingPrefs (snd (getAllSettings quiet_env connected)) \<and>
   fst (sendCommand prefs_env ''GET_ALL_PREFS'' (connected\<lparr>isLoadingPrefs := True\<rparr>)) = Inr ''[1]'' \<and>
   fst (getAllSettings prefs_env connected) = Inr () \<and>
   preferences (snd (getAllSettings prefs_env connected)) =
     ''['' @ [newline] @ ''  1'' @ [newline] @ '']'' \<and>
   \<not> isLoadingPrefs (snd (getAllSettings prefs_env connected))"
proof -
  have c: "writerRef connected \<noteq> None \<and> readerRef connected \<noteq> None"
    by (simp add: connected_def io_defs op_defs quiet_env_def initial_def)
  have silent: "sendCommand quiet_env ''GET_ALL_PREFS'' (connected\<lparr>isLoadingPrefs := True\<rparr>) =
      (Inr [], snd (sendCommand quiet_env ''GET_ALL_PREFS'' (connected\<lparr>isLoadingPrefs := True\<rparr>)))"
    using c by (simp add: sendCommand_def io_defs quiet_env_def promise_race_def trim_def)
  have answer: "sendCommand prefs_env ''GET_ALL_PREFS'' (connected\<lparr>isLoadingPrefs := True\<rparr>) =
      (Inr ''[1]'', snd (sendCommand prefs_env ''GET_ALL_PREFS'' (connected\<lparr>isLoadingPrefs := True\<rparr>)))"
    using c by (simp add: sendCommand_def io_defs prefs_env_def quiet_env_def promise_race_def
          trim_def is_space_def has_bytes_def bytes_of_def terminated_def)
  have p: "json_parse prefs_env ''[1]'' = Some (JArray [JNumber 1])"
    "json_pretty prefs_env (JArray [JNumber 1]) = ''['' @ [newline] @ ''  1'' @ [newline] @ '']''"
    by (simp_all add: prefs_env_def)
  from getAllSettings_outcomes [of quiet_env connected] silent
  have 1: "fst (getAllSettings quiet_env connected) = Inl NoResponseReceived \<and>
      preferences (snd (getAllSettings quiet_env connected)) = preferences connected \<and>
      \<not> isLoadingPrefs (snd (getAllSettings quiet_env connected))"
    by blast
  from getAllSettings_outcomes [of prefs_env connected] answer
  have 2: "fst (getAllSettings prefs_env connected) = Inr () \<and>
      preferences (snd (getAllSettings prefs_env connected)) =
        (case json_parse prefs_env ''[1]'' of
           Some jsonData \<Rightarrow> json_pretty prefs_env jsonData | None \<Rightarrow> ''[1]'') \<and>
      \<not> isLoadingPrefs (snd (getAllSettings prefs_env connected))"
    by blast
  from answer have 3: "fst (sendCommand prefs_env ''GET_ALL_PREFS'' (connected\<lparr>isLoadingPrefs := True\<rparr>)) =
      Inr ''[1]''"
    by (metis fst_conv)
  from 1 2 3 show ?thesis by (simp add: p)
qed

subsection \<open>The session cells: what each function does to them\<close>

lemma close_core:
  "wp (closeNativeSerial env) (\<lambda>_ t. core t = core s) (\<lambda>_ t. core t = core s) s"
  by (simp add: closeNativeSerial_def core_def)

lemma cleanup_core:
  "wp (cleanupESPTool env)
      (\<lambda>_ t. core t = (isConnected s, deviceRef s, None, None))
      (\<lambda>_ t. core t = core s) s"
  by (simp add: cleanupESPTool_def core_def)

lemma setupESP_core:
  "wp (setupESPTool env)
      (\<lambda>_ t. deviceRef s \<noteq> None \<and> transportRef t \<noteq> None \<and> espLoaderRef t \<noteq> None \<and>
              isConnected t = isConnected s \<and> deviceRef t = deviceRef s)
      (\<lambda>_ t. isConnected t = isConnected s \<and> deviceRef t = deviceRef s \<and>
              ((transportRef t = transportRef s \<and> espLoaderRef t = espLoaderRef s) \<or>
               (deviceRef s \<noteq> None \<and> transportRef t \<noteq> None \<and> espLoaderRef t \<noteq> None))) s"
  by (simp add: wp_setupESPTool split: option.splits)

lemma setupNative_core:
  "wp (setupNativeSerial env)
      (\<lambda>_ t. deviceRef t \<noteq> None \<and> isConnected t = isConnected s \<and>
              transportRef t = transportRef s \<and> espLoaderRef t = espLoaderRef s)
      (\<lambda>_ t. core t = core s) s"
  by (simp add: setupNativeSerial_def core_def split: option.splits)

lemma inv_connect: "session_ok s \<Longrightarrow> session_ok (snd (connect env s))"
proof -
  assume ok: "session_ok s"
  have "wp (setupNativeSerial env)
          (\<lambda>_. wp (steps [modify (\<lambda>s. s\<lparr>isConnected := True\<rparr>)]) (\<lambda>_. session_ok) (\<lambda>_. session_ok))
          (\<lambda>_. session_ok) s"
    using ok by (intro wp_cons [OF setupNative_core]) (auto simp: session_ok_def core_def)
  then have "wp (connect env) (\<lambda>_. session_ok) (\<lambda>_. session_ok) s"
    by (simp add: connect_def)
  then show ?thesis by (simp add: wp_snd)
qed

lemma inv_disconnect: "session_ok s \<Longrightarrow> session_ok (snd (disconnect env s))"
proof -
  assume ok: "session_ok s"
  let ?rest = "[modify (\<lambda>s. s\<lparr>isConnected := False\<rparr>), modify (\<lambda>s. s\<lparr>chip := None\<rparr>),
                modify (\<lambda>s. s\<lparr>deviceRef := None\<rparr>)]"
  have "wp (closeNativeSerial env)
          (\<lambda>_. wp (steps (cleanupESPTool env # ?rest)) (\<lambda>_. session_ok) (\<lambda>_. session_ok))
          (\<lambda>_. session_ok) s"
  proof (rule wp_cons [OF close_core])
    fix x and t :: app assume t: "core t = core s"
    have "wp (cleanupESPTool env)
            (\<lambda>_. wp (steps ?rest) (\<lambda>_. session_ok) (\<lambda>_. session_ok)) (\<lambda>_. session_ok) t"
      using ok t by (intro wp_cons [OF cleanup_core]) (auto simp: session_ok_def core_def)
    then show "wp (steps (cleanupESPTool env # ?rest)) (\<lambda>_. session_ok) (\<lambda>_. session_ok) t"
      by (simp only: wp_steps_Cons)
  next
    fix e and t :: app assume "core t = core s"
    with ok show "session_ok t" by (simp add: session_ok_def core_def)
  qed
  then have "wp (disconnect env) (\<lambda>_. session_ok) (\<lambda>_. session_ok) s"
    by (simp only: disconnect_def wp_steps_Cons)
  then show ?thesis by (simp add: wp_snd)
qed

lemma session_ok_frame [simp]:
  "session_ok (t\<lparr>isErasing := b\<rparr>) = session_ok t"
  "session_ok (t\<lparr>isProgramming := b\<rparr>) = session_ok t"
  "session_ok (t\<lparr>progress := p\<rparr>) = session_ok t"
  "session_ok (t\<lparr>clock := c\<rparr>) = session_ok t"
  "session_ok (t\<lparr>iolog := l\<rparr>) = session_ok t"
  by (simp_all add: session_ok_def)

lemma flash_tail:
  assumes "session_ok t" and "isConnected t"
  shows "wp (steps [cleanupESPTool env, sleep env n, setupNativeSerial env])
            (\<lambda>_. session_ok) (\<lambda>_. session_ok) t"
proof -
  have native: "wp (setupNativeSerial env) (\<lambda>_. session_ok) (\<lambda>_. session_ok) u"
    if "session_ok u" "isConnected u" for u
    using that by (intro wp_cons [OF setupNative_core]) (auto simp: session_ok_def core_def)
  have "wp (cleanupESPTool env)
          (\<lambda>_. wp (steps [sleep env n, setupNativeSerial env]) (\<lambda>_. session_ok) (\<lambda>_. session_ok))
          (\<lambda>_. session_ok) t"
  proof (rule wp_cons [OF cleanup_core])
    fix x and u :: app assume u: "core u = (isConnected t, deviceRef t, None, None)"
    with assms have
      "session_ok (u\<lparr>clock := clock u + n + settleLate env, iolog := iolog u @ [SetTimeout n]\<rparr>)"
      "isConnected (u\<lparr>clock := clock u + n + settleLate env, iolog := iolog u @ [SetTimeout n]\<rparr>)"
      by (auto simp: session_ok_def core_def)
    from native [OF this]
    show "wp (steps [sleep env n, setupNativeSerial env]) (\<lambda>_. session_ok) (\<lambda>_. session_ok) u"
      by simp
  next
    fix e and u :: app assume "core u = core t"
    with assms show "session_ok u" by (simp add: session_ok_def core_def)
  qed
  then show ?thesis by simp
qed

lemma flash_head:
  assumes "session_ok s"
    and rest: "\<And>t. session_ok t \<Longrightarrow> isConnected t \<Longrightarrow> espLoaderRef t \<noteq> None \<Longrightarrow>
           wp (steps work) (\<lambda>_. session_ok) (\<lambda>_. session_ok) t"
  shows "wp (steps (closeNativeSerial env # bind (setupESPTool env) (\<lambda>_. ok ()) # work))
            (\<lambda>_. session_ok) (\<lambda>_. session_ok) s"
proof -
  have "wp (closeNativeSerial env)
          (\<lambda>_. wp (steps (bind (setupESPTool env) (\<lambda>_. ok ()) # work))
                  (\<lambda>_. session_ok) (\<lambda>_. session_ok))
          (\<lambda>_. session_ok) s"
  proof (rule wp_cons [OF close_core])
    fix x and t :: app assume t: "core t = core s"
    with assms(1) have ok: "session_ok t" by (simp add: session_ok_def core_def)
    have "wp (setupESPTool env)
            (\<lambda>_. wp (steps work) (\<lambda>_. session_ok) (\<lambda>_. session_ok)) (\<lambda>_. session_ok) t"
    proof (rule wp_cons [OF setupESP_core])
      fix y and u :: app
      assume "deviceRef t \<noteq> None \<and> transportRef u \<noteq> None \<and> espLoaderRef u \<noteq> None \<and>
              isConnected u = isConnected t \<and> deviceRef u = deviceRef t"
      with ok have "session_ok u" "isConnected u" "espLoaderRef u \<noteq> None"
        by (auto simp: session_ok_def)
      then show "wp (steps work) (\<lambda>_. session_ok) (\<lambda>_. session_ok) u" by (rule rest)
    next
      fix e and u :: app
      assume "isConnected u = isConnected t \<and> deviceRef u = deviceRef t \<and>
              ((transportRef u = transportRef t \<and> espLoaderRef u = espLoaderRef t) \<or>
               (deviceRef t \<noteq> None \<and> transportRef u \<noteq> None \<and> espLoaderRef u \<noteq> None))"
      with ok show "session_ok u" by (auto simp: session_ok_def)
    qed
    then show "wp (steps (bind (setupESPTool env) (\<lambda>_. ok ()) # work))
                 (\<lambda>_. session_ok) (\<lambda>_. session_ok) t"
      by simp
  next
    fix e and t :: app assume "core t = core s"
    with assms(1) show "session_ok t" by (simp add: session_ok_def core_def)
  qed
  then show ?thesis by simp
qed

lemma inv_erase: "session_ok s \<Longrightarrow> session_ok (snd (eraseFlash env s))"
proof -
  assume "session_ok s"
  then have ok: "session_ok (s\<lparr>isErasing := True\<rparr>)" by simp
  have "wp (steps [closeNativeSerial env, bind (setupESPTool env) (\<lambda>_. ok ()),
                   whenS (\<lambda>s. espLoaderRef s \<noteq> None) (call env LoaderEraseFlash),
                   cleanupESPTool env, sleep env 1000, setupNativeSerial env])
          (\<lambda>_. session_ok) (\<lambda>_. session_ok) (s\<lparr>isErasing := True\<rparr>)"
  proof (rule flash_head [OF ok])
    fix t assume t: "session_ok t" "isConnected t" "espLoaderRef t \<noteq> None"
    then have "session_ok (t\<lparr>iolog := iolog t @ [LoaderEraseFlash]\<rparr>)"
      "isConnected (t\<lparr>iolog := iolog t @ [LoaderEraseFlash]\<rparr>)" by simp_all
    from flash_tail [OF this, of env 1000] t
    show "wp (steps [whenS (\<lambda>s. espLoaderRef s \<noteq> None) (call env LoaderEraseFlash),
                     cleanupESPTool env, sleep env 1000, setupNativeSerial env])
            (\<lambda>_. session_ok) (\<lambda>_. session_ok) t"
      by (simp del: not_None_eq)
  qed
  then have "wp (eraseFlash env) (\<lambda>_. session_ok) (\<lambda>_. session_ok) s"
    by (simp add: eraseFlash_def del: not_None_eq)
  then show ?thesis by (simp add: wp_snd)
qed

lemma inv_program: "session_ok s \<Longrightarrow> session_ok (snd (programFlash env fileData s))"
proof -
  assume "session_ok s"
  then have ok: "session_ok (s\<lparr>isProgramming := True, progress := 0\<rparr>)" by simp
  have "wp (steps [closeNativeSerial env, bind (setupESPTool env) (\<lambda>_. ok ()),
                   whenS (\<lambda>s. espLoaderRef s \<noteq> None) (writeFlash env fileData),
                   whenS (\<lambda>s. espLoaderRef s \<noteq> None) (call env (LoaderAfter ''hard_reset'')),
                   cleanupESPTool env, sleep env 2000, setupNativeSerial env])
          (\<lambda>_. session_ok) (\<lambda>_. session_ok) (s\<lparr>isProgramming := True, progress := 0\<rparr>)"
  proof (rule flash_head [OF ok])
    fix t assume t: "session_ok t" "isConnected t" "espLoaderRef t \<noteq> None"
    let ?t1 = "t\<lparr>progress := foldl reportProgress (progress t) (reports env),
                  iolog := iolog t @ [LoaderWriteFlash fileData 0x10000]\<rparr>"
    let ?t2 = "?t1\<lparr>iolog := iolog ?t1 @ [LoaderAfter ''hard_reset'']\<rparr>"
    from t have "session_ok ?t2" "isConnected ?t2" by simp_all
    from flash_tail [OF this, of env 2000] t
    show "wp (steps [whenS (\<lambda>s. espLoaderRef s \<noteq> None) (writeFlash env fileData),
                     whenS (\<lambda>s. espLoaderRef s \<noteq> None) (call env (LoaderAfter ''hard_reset'')),
                     cleanupESPTool env, sleep env 2000, setupNativeSerial env])
            (\<lambda>_. session_ok) (\<lambda>_. session_ok) t"
      by (simp add: writeFlash_def del: not_None_eq)
  qed
  then have "wp (programFlash env fileData) (\<lambda>_. session_ok) (\<lambda>_. session_ok) s"
    by (simp add: programFlash_def del: not_None_eq)
  then show ?thesis by (simp add: wp_snd)
qed

lemma sendCommand_core:
  "wp (sendCommand env command) (\<lambda>_ t. core t = core s) (\<lambda>_ t. core t = core s) s"
proof -
  obtain c l where "snd (sendCommand env command s) = s\<lparr>clock := c, iolog := l\<rparr>"
    using sendCommand_frame by blast
  then have "core (snd (sendCommand env command s)) = core s" by (simp add: core_def)
  then show ?thesis by (simp add: wp_snd)
qed

lemma inv_send: "session_ok s \<Longrightarrow> session_ok (snd (sendCommand env command s))"
  using sendCommand_core [of env command s] by (simp add: wp_snd session_ok_def core_def)

lemma inv_get: "session_ok s \<Longrightarrow> session_ok (snd (getAllSettings env s))"
proof -
  assume ok: "session_ok s"
  let ?s1 = "s\<lparr>isLoadingPrefs := True\<rparr>"
  let ?P = "\<lambda>t. session_ok (t\<lparr>isLoadingPrefs := False\<rparr>)"
  have "wp (sendCommand env ''GET_ALL_PREFS'')
          (\<lambda>response. wp (if response \<noteq> [] then
                 (case json_parse env response of
                    Some jsonData \<Rightarrow> modify (\<lambda>s. s\<lparr>preferences := json_pretty env jsonData\<rparr>)
                  | None \<Rightarrow> modify (\<lambda>s. s\<lparr>preferences := response\<rparr>))
               else throw NoResponseReceived) (\<lambda>_. ?P) (\<lambda>_. ?P))
          (\<lambda>_. ?P) ?s1"
    using ok
    by (intro wp_cons [OF sendCommand_core])
       (auto simp: session_ok_def core_def split: option.splits)
  then have "wp (getAllSettings env) (\<lambda>_. session_ok) (\<lambda>_. session_ok) s"
    by (simp add: getAllSettings_def)
  then show ?thesis by (simp add: wp_snd)
qed

lemma inv_update: "session_ok s \<Longrightarrow> session_ok (snd (updateAllSettings env s))"
proof (cases "trim (preferences s) = [] \<or> json_parse env (preferences s) = None")
  case True
  assume "session_ok s"
  with True show ?thesis
    by (auto simp: updateAllSettings_def io_defs session_ok_def split: option.splits)
next
  case False
  assume ok: "session_ok s"
  from False obtain prefsData where j: "json_parse env (preferences s) = Some prefsData" by auto
  let ?s1 = "s\<lparr>isUpdatingPrefs := True\<rparr>"
  let ?P = "\<lambda>t. session_ok (t\<lparr>isUpdatingPrefs := False\<rparr>)"
  have "wp (sendCommand env (''SET_ALL_PREFS:'' @ json_stringify env prefsData))
          (\<lambda>response. wp (if str_includes response ''ERROR''
                 then throw (UpdateFailed response)
                 else ok (''Response: '' @ response)) (\<lambda>_. ?P) (\<lambda>_. ?P))
          (\<lambda>_. ?P) ?s1"
    using ok
    by (intro wp_cons [OF sendCommand_core]) (auto simp: session_ok_def core_def)
  then have "wp (bind (sendCommand env (''SET_ALL_PREFS:'' @ json_stringify env prefsData))
                 (\<lambda>response. if str_includes response ''ERROR''
                    then throw (UpdateFailed response)
                    else ok (''Response: '' @ response))) (\<lambda>_. ?P) (\<lambda>_. ?P) ?s1"
    by (simp only: wp_bind)
  then have "?P (snd (bind (sendCommand env (''SET_ALL_PREFS:'' @ json_stringify env prefsData))
                 (\<lambda>response. if str_includes response ''ERROR''
                    then throw (UpdateFailed response)
                    else ok (''Response: '' @ response)) ?s1))"
    by (simp only: wp_snd)
  with False j show ?thesis
    by (simp add: updateAllSettings_def snd_bind_modify snd_try_finally)
qed

lemma device_invariant_eq: "device_invariant s = session_ok s"
  by (auto simp add: device_invariant_def session_ok_def mode_def adapter_exists_def)


lemma reachable_stranded: "serially_reachable stranded"
  unfolding stranded_def connected_def by (intro serially_reachable.intros)

lemma stranded_state:
  "eraseFlash failing_erase_env connected =
     (Inl (Rejected LoaderEraseFlash),
      connected\<lparr>serialPortRef := None, writerRef := None, readerRef := None,
        transportRef := Some (Transport 1),
        espLoaderRef := Some (ESPLoader (Transport 1) (Some 115200)),
        chip := Some ''ESP32-S3'',
        iolog := iolog connected @ [ReaderCancel, ReaderReleaseLock, WriterClose, PortClose,
                                    LoaderMain, LoaderEraseFlash]\<rparr>)"
  by (simp add: io_defs op_defs connected_def failing_erase_env_def quiet_env_def initial_def
        parseInt_115200)

lemma stranded_eq:
  "stranded =
      connected\<lparr>serialPortRef := None, writerRef := None, readerRef := None,
        transportRef := Some (Transport 1),
        espLoaderRef := Some (ESPLoader (Transport 1) (Some 115200)),
        chip := Some ''ESP32-S3'',
        iolog := iolog connected @ [ReaderCancel, ReaderReleaseLock, WriterClose, PortClose,
                                    LoaderMain, LoaderEraseFlash]\<rparr>"
  unfolding stranded_def stranded_state by simp

lemma connected_state:
  "connected = initial\<lparr>serialPortRef := Some 1, writerRef := Some (Writer 1),
     readerRef := Some (Reader 1), deviceRef := Some 1, chip := Some ''Native Connection'',
     isConnected := True,
     iolog := [RequestPort, PortOpen (Some 115200), GetWriter, GetReader]\<rparr>"
  by (simp add: io_defs op_defs connected_def quiet_env_def initial_def parseInt_115200)


text \<open>
  The two halves of \<open>programFlash\<close> are \<open>programFlash\<close>: a run that is not
  interrupted goes through the first half and, when that did not throw, through the
  second.
\<close>

lemma programFlash_split:
  "programFlash env fileData s =
     (case programFlash_until_settle env fileData s of
        (Inl e, t) \<Rightarrow> (Inl e, t\<lparr>isProgramming := False, progress := 0\<rparr>)
      | (Inr x, t) \<Rightarrow> programFlash_after_settle env t)"
  by (simp add: programFlash_def programFlash_until_settle_def programFlash_after_settle_def
        steps.simps bind_def try_finally_def modify_def split: prod.splits sum.splits)

lemma overlap_state:
  "disconnect_during_settle quiet_env quiet_env ''fw'' connected =
     connected\<lparr>isConnected := False,
       iolog := iolog connected @
         [ReaderCancel, ReaderReleaseLock, WriterClose, PortClose, LoaderMain,
          LoaderWriteFlash ''fw'' 0x10000, LoaderAfter ''hard_reset'', TransportDisconnect,
          SetTimeout 2000, RequestPort, PortOpen (Some 115200), GetWriter, GetReader],
       clock := clock connected + 2000\<rparr>"
  by (simp add: disconnect_during_settle_def programFlash_until_settle_def
        programFlash_after_settle_def io_defs op_defs connected_state quiet_env_def initial_def
        parseInt_115200 reportProgress_def)


subsection \<open>eraseFlash when a step fails\<close>

lemma erase_plan_eq: "erase_plan env s = close_plan env s @ erase_work_plan env s"
  by (simp add: erase_plan_def)

lemma first_rejected_append:
  "first_rejected env (xs @ ys) =
     (case first_rejected env xs of None \<Rightarrow> first_rejected env ys | Some c \<Rightarrow> Some c)"
  by (induction xs) (simp_all add: first_rejected_def)

lemma calls_until_none: "first_rejected env xs = None \<Longrightarrow> calls_until_rejected env xs = xs"
  by (induction xs) (simp_all add: first_rejected_def calls_until_rejected_def split: if_splits)

lemma calls_until_append_none:
  "first_rejected env xs = None \<Longrightarrow>
     calls_until_rejected env (xs @ ys) = xs @ calls_until_rejected env ys"
  by (induction xs) (simp_all add: first_rejected_def calls_until_rejected_def split: if_splits)

lemma calls_until_append_some:
  "first_rejected env xs = Some c \<Longrightarrow>
     calls_until_rejected env (xs @ ys) = calls_until_rejected env xs"
  by (induction xs) (simp_all add: first_rejected_def calls_until_rejected_def split: if_splits)

lemma first_rejected_Some: "first_rejected env xs = Some c \<Longrightarrow> c \<in> set xs \<and> rejects env c"
  by (induction xs) (auto simp add: first_rejected_def split: if_splits)

lemma first_rejected_Nil [simp]: "first_rejected env [] = None"
  by (simp add: first_rejected_def)

lemma calls_until_Nil [simp]: "calls_until_rejected env [] = []"
  by (simp add: calls_until_rejected_def)

lemma made_trans: "made s t a \<Longrightarrow> made t u b \<Longrightarrow> made s u (a @ b)"
  by (auto simp add: made_def)

lemma made_calls: "made s t cs \<Longrightarrow> calls_made s t = cs"
  by (auto simp add: made_def calls_made_def)

lemma made_frame [simp]:
  "made (s\<lparr>isErasing := b\<rparr>) t cs = made s t cs"
  "made s (t\<lparr>isErasing := b\<rparr>) cs = made s t cs"
  "made s (t\<lparr>isConnected := b\<rparr>) cs = made s t cs"
  "made s (t\<lparr>chip := c\<rparr>) cs = made s t cs"
  "made s (t\<lparr>deviceRef := d\<rparr>) cs = made s t cs"
  "made s (t\<lparr>espLoaderRef := l\<rparr>) cs = made s t cs"
  "made s (t\<lparr>transportRef := tr\<rparr>) cs = made s t cs"
  by (simp_all add: made_def)


lemma close_spec:
  "wp (closeNativeSerial env)
      (\<lambda>_ t. first_rejected env (close_plan env s) = None \<and> made s t (close_plan env s) \<and>
              readerRef t = None \<and> writerRef t = None \<and>
              (readable env \<longrightarrow> serialPortRef t = None) \<and> kept t = kept s)
      (\<lambda>e t. \<exists>c. first_rejected env (close_plan env s) = Some c \<and> e = Rejected c \<and>
              made s t (calls_until_rejected env (close_plan env s)) \<and>
              last (iolog t) = c \<and> kept t = kept s) s"
  by (simp add: closeNativeSerial_def close_plan_def first_rejected_def calls_until_rejected_def
        made_def kept_def)

lemma close_plan_calls:
  "c \<in> set (close_plan env s) \<Longrightarrow> c \<in> {ReaderCancel, ReaderReleaseLock, WriterClose, PortClose}"
  by (auto simp add: close_plan_def split: if_splits)

lemma erase_work_spec:
  assumes "readerRef t = None" "writerRef t = None"
  shows "wp (steps [bind (setupESPTool env) (\<lambda>_. ok ()),
                whenS (\<lambda>s. espLoaderRef s \<noteq> None) (call env LoaderEraseFlash),
                cleanupESPTool env, sleep env 1000, setupNativeSerial env])
     (\<lambda>_ u. first_rejected env (erase_work_plan env t) = None \<and> deviceRef t \<noteq> None \<and>
             serialLib env \<and> made t u (erase_work_plan env t) \<and> \<not> adapter_exists u)
     (\<lambda>e u. case first_rejected env (erase_work_plan env t) of
          None \<Rightarrow> made t u (erase_work_plan env t) \<and>
                 (if deviceRef t = None then e = NoDeviceAvailable
                  else e = TypeError \<and> \<not> serialLib env)
        | Some c \<Rightarrow> e = Rejected c \<and>
                 made t u (calls_until_rejected env (erase_work_plan env t)) \<and>
                 last (iolog u) = c \<and>
                 (c \<in> {LoaderMain, LoaderEraseFlash, TransportDisconnect} \<longrightarrow>
                    espLoaderRef u \<noteq> None \<and> transportRef u \<noteq> None \<and>
                    readerRef u = None \<and> writerRef u = None \<and>
                    isConnected u = isConnected t)) t"
  using assms
  by (simp add: wp_setupESPTool cleanupESPTool_def setupNativeSerial_def erase_work_plan_def
        first_rejected_def calls_until_rejected_def made_def adapter_exists_def
        split: option.splits)

lemma eraseFlash_spec:
  "wp (eraseFlash env) (\<lambda>_. erase_ok env s) (erase_failed env s) s"
proof -
  let ?h = "\<lambda>t. t\<lparr>isErasing := False\<rparr>"
  let ?Q = "\<lambda>(x :: unit) t. erase_ok env s (?h t)"
  let ?E = "\<lambda>e t. erase_failed env s e (?h t)"
  let ?s0 = "s\<lparr>isErasing := True\<rparr>"
  let ?work = "[bind (setupESPTool env) (\<lambda>_. ok ()),
                whenS (\<lambda>s. espLoaderRef s \<noteq> None) (call env LoaderEraseFlash),
                cleanupESPTool env, sleep env 1000, setupNativeSerial env]"
  have cp: "close_plan env ?s0 = close_plan env s"
    by (simp add: close_plan_def)
  have "wp (closeNativeSerial env) (\<lambda>_. wp (steps ?work) ?Q ?E) ?E ?s0"
  proof (rule wp_cons [OF close_spec])
    fix x and t :: app
    assume t: "first_rejected env (close_plan env ?s0) = None \<and>
              made ?s0 t (close_plan env ?s0) \<and> readerRef t = None \<and> writerRef t = None \<and>
              (readable env \<longrightarrow> serialPortRef t = None) \<and> kept t = kept ?s0"
    then have tp: "erase_work_plan env t = erase_work_plan env s"
      and dev: "deviceRef t = deviceRef s" and con: "isConnected t = isConnected s"
      by (simp_all add: erase_work_plan_def kept_def)
    from t have r: "readerRef t = None" "writerRef t = None" by simp_all
    from t cp have m: "made s t (close_plan env s)" and f: "first_rejected env (close_plan env s) = None"
      by simp_all
    show "wp (steps ?work) ?Q ?E t"
    proof (rule wp_cons [OF erase_work_spec [OF r]])
      fix y and u :: app
      assume "first_rejected env (erase_work_plan env t) = None \<and> deviceRef t \<noteq> None \<and>
             serialLib env \<and> made t u (erase_work_plan env t) \<and> \<not> adapter_exists u"
      with made_trans [OF m, of u "erase_work_plan env s"] f tp dev
      show "erase_ok env s (?h u)"
        by (simp add: erase_ok_def erase_plan_eq first_rejected_append adapter_exists_def)
    next
      fix e and u :: app
      assume a: "case first_rejected env (erase_work_plan env t) of
          None \<Rightarrow> made t u (erase_work_plan env t) \<and>
                 (if deviceRef t = None then e = NoDeviceAvailable
                  else e = TypeError \<and> \<not> serialLib env)
        | Some c \<Rightarrow> e = Rejected c \<and>
                 made t u (calls_until_rejected env (erase_work_plan env t)) \<and>
                 last (iolog u) = c \<and>
                 (c \<in> {LoaderMain, LoaderEraseFlash, TransportDisconnect} \<longrightarrow>
                    espLoaderRef u \<noteq> None \<and> transportRef u \<noteq> None \<and>
                    readerRef u = None \<and> writerRef u = None \<and>
                    isConnected u = isConnected t)"
      show "erase_failed env s e (?h u)"
      proof (cases "first_rejected env (erase_work_plan env s)")
        case None
        with a tp dev made_trans [OF m, of u "erase_work_plan env s"] f show ?thesis
          by (simp add: erase_failed_def erase_plan_eq first_rejected_append)
      next
        case (Some c)
        with a tp con made_trans [OF m, of u "calls_until_rejected env (erase_work_plan env s)"] f
        show ?thesis
          by (simp add: erase_failed_def erase_plan_eq first_rejected_append
                calls_until_append_none)
      qed
    qed
  next
    fix e and t :: app
    assume "\<exists>c. first_rejected env (close_plan env ?s0) = Some c \<and> e = Rejected c \<and>
              made ?s0 t (calls_until_rejected env (close_plan env ?s0)) \<and>
              last (iolog t) = c \<and> kept t = kept ?s0"
    then obtain c where c: "first_rejected env (close_plan env s) = Some c" "e = Rejected c"
      "made s t (calls_until_rejected env (close_plan env s))" "last (iolog t) = c"
      using cp by auto
    from first_rejected_Some [OF c(1)] close_plan_calls [of c env s]
    have "c \<notin> {LoaderMain, LoaderEraseFlash, TransportDisconnect}" by auto
    with c show "erase_failed env s e (?h t)"
      by (simp add: erase_failed_def erase_plan_eq first_rejected_append
            calls_until_append_some)
  qed
  then show ?thesis by (simp add: eraseFlash_def del: not_None_eq)
qed


text \<open>
  C3 (amended). \<open>eraseFlash\<close> fails exactly when a step of its choreography fails, and
  with the error of the first step that does: the first rejected call among the release
  calls for what the session holds, chip detection, the erase, the exit from the
  bootloader and the reopening of the port, or else the missing device or serial
  library. The error is propagated at once: the erasing busy-flag is cleared, the
  rejected call is the last call of the run and the calls made are those of the
  choreography up to it, so that no bootloader exit and no native-mode restoration is
  attempted after it. When the failing step is chip detection, the adapter's erase or
  the exit, the session is left holding the adapter, with reader and writer closed: in
  Bootloader mode, if it was connected.
\<close>

theorem eraseFlash_failure:
  "fst (eraseFlash env s) =
     (case first_rejected env (erase_plan env s) of
        Some c \<Rightarrow> Inl (Rejected c)
      | None \<Rightarrow> if deviceRef s = None then Inl NoDeviceAvailable
                else if serialLib env then Inr () else Inl TypeError) \<and>
   \<not> isErasing (snd (eraseFlash env s)) \<and>
   calls_made s (snd (eraseFlash env s)) = calls_until_rejected env (erase_plan env s) \<and>
   (\<forall>c. first_rejected env (erase_plan env s) = Some c \<longrightarrow>
      last (iolog (snd (eraseFlash env s))) = c \<and>
      (c \<in> {LoaderMain, LoaderEraseFlash, TransportDisconnect} \<longrightarrow>
         adapter_exists (snd (eraseFlash env s)) \<and>
         readerRef (snd (eraseFlash env s)) = None \<and>
         writerRef (snd (eraseFlash env s)) = None \<and>
         (isConnected s \<longrightarrow> mode (snd (eraseFlash env s)) = Bootloader)))"
proof (cases "eraseFlash env s")
  case (Pair r s')
  show ?thesis
  proof (cases r)
    case (Inl e)
    with Pair eraseFlash_spec [of env s] have f: "erase_failed env s e s'"
      by (simp add: wp_def)
    show ?thesis
    proof (cases "first_rejected env (erase_plan env s)")
      case None
      with f Pair Inl show ?thesis
        by (auto simp add: erase_failed_def made_calls calls_until_none split: if_splits)
    next
      case (Some c)
      with f Pair Inl show ?thesis
        by (auto simp add: erase_failed_def made_calls adapter_exists_def mode_def)
    qed
  next
    case (Inr u)
    with Pair eraseFlash_spec [of env s] have "erase_ok env s s'"
      by (simp add: wp_def)
    with Pair Inr show ?thesis
      by (simp add: erase_ok_def made_calls calls_until_none)
  qed
qed

lemma erase_plan_connected:
  "erase_plan failing_erase_env connected =
     [ReaderCancel, ReaderReleaseLock, WriterClose, PortClose, LoaderMain, LoaderEraseFlash,
      TransportDisconnect, RequestPort, PortOpen (Some 115200), GetWriter, GetReader]"
  by (simp add: erase_plan_def erase_work_plan_def close_plan_def connected_state initial_def
        failing_erase_env_def quiet_env_def parseInt_115200)

theorem eraseFlash_failure_witness:
  "first_rejected failing_erase_env (erase_plan failing_erase_env connected) =
     Some LoaderEraseFlash \<and>
   isConnected connected \<and>
   fst (eraseFlash failing_erase_env connected) = Inl (Rejected LoaderEraseFlash) \<and>
   snd (eraseFlash failing_erase_env connected) = stranded \<and>
   \<not> isErasing stranded \<and> last (iolog stranded) = LoaderEraseFlash \<and>
   calls_made connected stranded =
     [ReaderCancel, ReaderReleaseLock, WriterClose, PortClose, LoaderMain, LoaderEraseFlash] \<and>
   adapter_exists stranded \<and> readerRef stranded = None \<and> writerRef stranded = None \<and>
   mode stranded = Bootloader"
proof -
  have f: "first_rejected failing_erase_env (erase_plan failing_erase_env connected) =
      Some LoaderEraseFlash"
    and u: "calls_until_rejected failing_erase_env (erase_plan failing_erase_env connected) =
      [ReaderCancel, ReaderReleaseLock, WriterClose, PortClose, LoaderMain, LoaderEraseFlash]"
    unfolding erase_plan_connected
    by (simp_all add: first_rejected_def calls_until_rejected_def failing_erase_env_def)
  have c: "isConnected connected" by (simp add: connected_state)
  have s: "snd (eraseFlash failing_erase_env connected) = stranded" by (simp add: stranded_def)
  from eraseFlash_failure [of failing_erase_env connected] f u c s show ?thesis by simp
qed

text \<open>
  C3, as stated, fails. When the loader rejects the erase, \<open>eraseFlash\<close> throws that
  error with the log ending at the rejected call: no \<open>transport.disconnect()\<close> and no
  new \<open>requestPort\<close> follow, and the session stays in Bootloader mode.
\<close>

theorem eraseFlash_no_cleanup_counterexample:
  "fst (eraseFlash failing_erase_env connected) = Inl (Rejected LoaderEraseFlash) \<and>
   iolog (snd (eraseFlash failing_erase_env connected)) =
     iolog connected @ [ReaderCancel, ReaderReleaseLock, WriterClose, PortClose,
                        LoaderMain, LoaderEraseFlash] \<and>
   TransportDisconnect \<notin> set (iolog (snd (eraseFlash failing_erase_env connected))) \<and>
   mode (snd (eraseFlash failing_erase_env connected)) = Bootloader"
  unfolding stranded_state by (simp add: connected_state mode_def initial_def)

subsection \<open>disconnect\<close>

lemma release_plan_calls: "set (release_plan env s) \<subseteq> set release_calls"
  by (auto simp add: release_plan_def close_plan_def release_calls_def split: if_splits)

lemma disconnect_spec:
  "wp (disconnect env) (\<lambda>_. released env s) (release_failed env s) s"
proof -
  let ?rest = "[cleanupESPTool env, modify (\<lambda>s. s\<lparr>isConnected := False\<rparr>),
                modify (\<lambda>s. s\<lparr>chip := None\<rparr>), modify (\<lambda>s. s\<lparr>deviceRef := None\<rparr>)]"
  have "wp (closeNativeSerial env)
          (\<lambda>_. wp (steps ?rest) (\<lambda>_. released env s) (release_failed env s))
          (release_failed env s) s"
  proof (rule wp_cons [OF close_spec])
    fix x and t :: app
    assume t: "first_rejected env (close_plan env s) = None \<and> made s t (close_plan env s) \<and>
              readerRef t = None \<and> writerRef t = None \<and>
              (readable env \<longrightarrow> serialPortRef t = None) \<and> kept t = kept s"
    then have k: "transportRef t = transportRef s" "isConnected t = isConnected s"
      "chip t = chip s" "deviceRef t = deviceRef s"
      by (simp_all add: kept_def)
    from t have m: "made s t (close_plan env s)" by simp
    have m': "made s (t\<lparr>iolog := iolog t @ [TransportDisconnect]\<rparr>)
                (close_plan env s @ [TransportDisconnect])"
      using m by (auto simp add: made_def)
    show "wp (steps ?rest) (\<lambda>_. released env s) (release_failed env s) t"
      using t k m m'
      by (simp add: cleanupESPTool_def released_def release_failed_def release_plan_def
            first_rejected_append calls_until_append_none
            first_rejected_def [of env "[TransportDisconnect]"]
            calls_until_rejected_def [of env "[TransportDisconnect]"] del: not_None_eq)
  next
    fix e and t :: app
    assume "\<exists>c. first_rejected env (close_plan env s) = Some c \<and> e = Rejected c \<and>
              made s t (calls_until_rejected env (close_plan env s)) \<and>
              last (iolog t) = c \<and> kept t = kept s"
    then show "release_failed env s e t"
      by (auto simp add: release_failed_def release_plan_def first_rejected_append
            calls_until_append_some kept_def)
  qed
  then show ?thesis by (simp add: disconnect_def)
qed

text \<open>
  C4 (amended). \<open>disconnect\<close> can be called in every session state. It makes, in
  order, a release call for each resource the session holds, and it succeeds exactly when
  none of these calls rejects: reader and writer are then released, the serial port too
  when its \<open>readable\<close> is set, the adapter is discarded, the chip identity is cleared,
  and the session is Disconnected. A release call that rejects is not absorbed: the
  first one that does ends the run, no later release call is made, its error reaches the
  caller, and \<open>isConnected\<close>, the chip identity and \<open>deviceRef\<close> stay as they were.
\<close>

theorem disconnect_releases_or_propagates:
  "fst (disconnect env s) =
     (case first_rejected env (release_plan env s) of
        None \<Rightarrow> Inr ()
      | Some c \<Rightarrow> Inl (Rejected c)) \<and>
   calls_made s (snd (disconnect env s)) = calls_until_rejected env (release_plan env s) \<and>
   set (release_plan env s) \<subseteq> set release_calls \<and>
   (first_rejected env (release_plan env s) = None \<longrightarrow>
      readerRef (snd (disconnect env s)) = None \<and>
      writerRef (snd (disconnect env s)) = None \<and>
      (readable env \<longrightarrow> serialPortRef (snd (disconnect env s)) = None) \<and>
      transportRef (snd (disconnect env s)) = None \<and>
      espLoaderRef (snd (disconnect env s)) = None \<and>
      chip (snd (disconnect env s)) = None \<and>
      deviceRef (snd (disconnect env s)) = None \<and>
      mode (snd (disconnect env s)) = Disconnected) \<and>
   (\<forall>c. first_rejected env (release_plan env s) = Some c \<longrightarrow>
      rejects env c \<and> c \<in> set (release_plan env s) \<and>
      last (iolog (snd (disconnect env s))) = c \<and>
      isConnected (snd (disconnect env s)) = isConnected s \<and>
      chip (snd (disconnect env s)) = chip s \<and>
      deviceRef (snd (disconnect env s)) = deviceRef s)"
proof (cases "disconnect env s")
  case (Pair r s')
  show ?thesis
  proof (cases r)
    case (Inl e)
    with Pair disconnect_spec [of env s] have "release_failed env s e s'"
      by (simp add: wp_def)
    then obtain c where c: "first_rejected env (release_plan env s) = Some c" "e = Rejected c"
      "made s s' (calls_until_rejected env (release_plan env s))" "last (iolog s') = c"
      "isConnected s' = isConnected s" "chip s' = chip s" "deviceRef s' = deviceRef s"
      by (auto simp add: release_failed_def)
    with Pair Inl first_rejected_Some [OF c(1)] release_plan_calls [of env s] show ?thesis
      by (simp add: made_calls)
  next
    case (Inr u)
    with Pair disconnect_spec [of env s] have "released env s s'"
      by (simp add: wp_def)
    with Pair Inr release_plan_calls [of env s] show ?thesis
      by (simp add: released_def made_calls calls_until_none mode_def)
  qed
qed

lemma release_plan_connected:
  "release_plan quiet_env connected = [ReaderCancel, ReaderReleaseLock, WriterClose, PortClose]"
  "release_plan failing_close_env connected =
     [ReaderCancel, ReaderReleaseLock, WriterClose, PortClose]"
  by (simp_all add: release_plan_def close_plan_def connected_state initial_def
        failing_close_env_def quiet_env_def)

theorem disconnect_witness:
  "first_rejected quiet_env (release_plan quiet_env connected) = None \<and>
   readable quiet_env \<and>
   fst (disconnect quiet_env connected) = Inr () \<and>
   mode (snd (disconnect quiet_env connected)) = Disconnected \<and>
   serialPortRef (snd (disconnect quiet_env connected)) = None \<and>
   calls_made connected (snd (disconnect quiet_env connected)) =
     [ReaderCancel, ReaderReleaseLock, WriterClose, PortClose] \<and>
   first_rejected failing_close_env (release_plan failing_close_env connected) =
     Some WriterClose \<and>
   fst (disconnect failing_close_env connected) = Inl (Rejected WriterClose) \<and>
   calls_made connected (snd (disconnect failing_close_env connected)) =
     [ReaderCancel, ReaderReleaseLock, WriterClose] \<and>
   isConnected (snd (disconnect failing_close_env connected)) = isConnected connected \<and>
   chip (snd (disconnect failing_close_env connected)) = chip connected"
proof -
  have q: "first_rejected quiet_env (release_plan quiet_env connected) = None"
    "calls_until_rejected quiet_env (release_plan quiet_env connected) =
       [ReaderCancel, ReaderReleaseLock, WriterClose, PortClose]"
    "readable quiet_env"
    unfolding release_plan_connected
    by (simp_all add: first_rejected_def calls_until_rejected_def quiet_env_def)
  have f: "first_rejected failing_close_env (release_plan failing_close_env connected) =
      Some WriterClose"
    "calls_until_rejected failing_close_env (release_plan failing_close_env connected) =
       [ReaderCancel, ReaderReleaseLock, WriterClose]"
    unfolding release_plan_connected
    by (simp_all add: first_rejected_def calls_until_rejected_def failing_close_env_def
          quiet_env_def)
  from disconnect_releases_or_propagates [of quiet_env connected]
    disconnect_releases_or_propagates [of failing_close_env connected] q f
  show ?thesis by simp
qed

text \<open>
  C4, as stated, fails. When the writer rejects \<open>close()\<close>, \<open>disconnect\<close> throws that
  error; the session stays connected, in Native mode, with its chip identity and its
  writer.
\<close>

theorem disconnect_raises_counterexample:
  "fst (disconnect failing_close_env connected) = Inl (Rejected WriterClose) \<and>
   isConnected (snd (disconnect failing_close_env connected)) \<and>
   mode (snd (disconnect failing_close_env connected)) = Native \<and>
   chip (snd (disconnect failing_close_env connected)) = Some ''Native Connection'' \<and>
   writerRef (snd (disconnect failing_close_env connected)) = Some (Writer 1)"
  by (simp add: io_defs op_defs connected_state failing_close_env_def quiet_env_def initial_def
        mode_def)

lemma parseInt_baud_rates:
  "b \<in> set baud_rates \<Longrightarrow> parseInt b \<in> Some ` {921600, 460800, 230400, 115200}"
proof -
  assume "b \<in> set baud_rates"
  then have "b = ''921600'' \<or> b = ''460800'' \<or> b = ''230400'' \<or> b = ''115200''"
    by (simp add: baud_rates_def)
  moreover have "parseInt ''921600'' = Some 921600" "parseInt ''460800'' = Some 460800"
    "parseInt ''230400'' = Some 230400"
    by (simp_all add: parseInt_def is_space_def is_digit_def digit_val_def Let_def)
  ultimately show ?thesis using parseInt_115200 by auto
qed

lemma connect_success:
  assumes "idle s" and "fst (connect env s) = Inr ()"
  shows "\<exists>p. p = pickedPort env \<and> snd (connect env s) =
           s\<lparr>serialPortRef := Some p, writerRef := Some (Writer p), readerRef := Some (Reader p),
             deviceRef := Some p, chip := Some ''Native Connection'', isConnected := True,
             iolog := iolog s @ [RequestPort, PortOpen (parseInt (baudrate s)), GetWriter, GetReader]\<rparr>"
  using assms
  by (auto simp add: io_defs connect_def setupNativeSerial_def idle_def
        split: if_splits option.splits)

lemma disconnect_idle:
  assumes "idle s"
  shows "disconnect env s = (Inr (), s)"
  using assms
  by (simp add: io_defs disconnect_def closeNativeSerial_def cleanupESPTool_def idle_def)

lemma disconnect_fst:
  "fst (disconnect env s) =
     (case first_rejected env (release_plan env s) of
        None \<Rightarrow> Inr ()
      | Some c \<Rightarrow> Inl (Rejected c))"
  using disconnect_spec [of env s]
  by (cases "disconnect env s"; cases "fst (disconnect env s)")
     (auto simp add: wp_def released_def release_failed_def)

lemma disconnect_keeps_port:
  "\<not> readable env \<Longrightarrow> serialPortRef (snd (disconnect env s)) = serialPortRef s"
proof -
  assume r: "\<not> readable env"
  have "wp (disconnect env) (\<lambda>_ t. serialPortRef t = serialPortRef s)
          (\<lambda>_ t. serialPortRef t = serialPortRef s) s"
    using r by (simp add: disconnect_def closeNativeSerial_def cleanupESPTool_def)
  then show ?thesis by (simp add: wp_snd)
qed

lemma disconnect_failed_connected:
  "fst (disconnect env s) \<noteq> Inr () \<Longrightarrow>
     isConnected (snd (disconnect env s)) = isConnected s \<and>
     espLoaderRef (snd (disconnect env s)) = espLoaderRef s"
proof -
  assume f: "fst (disconnect env s) \<noteq> Inr ()"
  have "wp (disconnect env) (\<lambda>_ t. True)
          (\<lambda>_ t. isConnected t = isConnected s \<and> espLoaderRef t = espLoaderRef s) s"
    by (simp add: disconnect_def closeNativeSerial_def cleanupESPTool_def)
  with f show ?thesis
    by (cases "disconnect env s"; cases "fst (disconnect env s)") (auto simp add: wp_def)
qed

text \<open>
  C9 (amended). For every baud rate of the selection, after a \<open>connect\<close> that succeeded
  from a session holding nothing, the port having been opened at that baud rate, a
  \<open>disconnect\<close> has to cancel the reader, release its lock and close the writer, and to
  close the port when its \<open>readable\<close> is set. When none of these calls rejects and
  \<open>readable\<close> is set, the session is left Disconnected with nothing held, and a second
  \<open>disconnect\<close> is a no-op in every environment: it succeeds, makes no external call
  and leaves the state as it is. When one of these calls rejects, \<open>disconnect\<close> throws
  and the session stays in Native mode; and when \<open>readable\<close> is not set, the port is
  not closed and its cell stays set.
\<close>

theorem connect_then_disconnect:
  assumes "b \<in> set baud_rates" and "idle s" and "baudrate s = b"
    and "fst (connect env1 s) = Inr ()"
  shows "parseInt b \<in> Some ` {921600, 460800, 230400, 115200} \<and>
     iolog (snd (connect env1 s)) =
       iolog s @ [RequestPort, PortOpen (parseInt b), GetWriter, GetReader] \<and>
     release_plan env2 (snd (connect env1 s)) =
       [ReaderCancel, ReaderReleaseLock, WriterClose] @ (if readable env2 then [PortClose] else []) \<and>
     (first_rejected env2 (release_plan env2 (snd (connect env1 s))) = None \<and> readable env2 \<longrightarrow>
        fst (disconnect env2 (snd (connect env1 s))) = Inr () \<and>
        idle (snd (disconnect env2 (snd (connect env1 s)))) \<and>
        mode (snd (disconnect env2 (snd (connect env1 s)))) = Disconnected \<and>
        iolog (snd (disconnect env2 (snd (connect env1 s)))) =
          iolog s @ [RequestPort, PortOpen (parseInt b), GetWriter, GetReader,
                     ReaderCancel, ReaderReleaseLock, WriterClose, PortClose] \<and>
        (\<forall>env3. disconnect env3 (snd (disconnect env2 (snd (connect env1 s)))) =
                  (Inr (), snd (disconnect env2 (snd (connect env1 s)))))) \<and>
     (first_rejected env2 (release_plan env2 (snd (connect env1 s))) \<noteq> None \<longrightarrow>
        (\<exists>c. fst (disconnect env2 (snd (connect env1 s))) = Inl (Rejected c)) \<and>
        mode (snd (disconnect env2 (snd (connect env1 s)))) = Native) \<and>
     (\<not> readable env2 \<longrightarrow>
        serialPortRef (snd (disconnect env2 (snd (connect env1 s)))) = Some (pickedPort env1))"
proof -
  let ?s1 = "snd (connect env1 s)"
  obtain p where p: "p = pickedPort env1" and c: "?s1 =
           s\<lparr>serialPortRef := Some p, writerRef := Some (Writer p), readerRef := Some (Reader p),
             deviceRef := Some p, chip := Some ''Native Connection'', isConnected := True,
             iolog := iolog s @ [RequestPort, PortOpen (parseInt (baudrate s)), GetWriter, GetReader]\<rparr>"
    using connect_success [OF assms(2,4)] by blast
  have plan: "release_plan env2 ?s1 =
       [ReaderCancel, ReaderReleaseLock, WriterClose] @ (if readable env2 then [PortClose] else [])"
    unfolding c using assms(2) by (simp add: release_plan_def close_plan_def idle_def)
  have log: "iolog ?s1 = iolog s @ [RequestPort, PortOpen (parseInt b), GetWriter, GetReader]"
    unfolding c using assms(3) by simp
  have good: "fst (disconnect env2 ?s1) = Inr () \<and>
        idle (snd (disconnect env2 ?s1)) \<and>
        mode (snd (disconnect env2 ?s1)) = Disconnected \<and>
        iolog (snd (disconnect env2 ?s1)) =
          iolog s @ [RequestPort, PortOpen (parseInt b), GetWriter, GetReader,
                     ReaderCancel, ReaderReleaseLock, WriterClose, PortClose] \<and>
        (\<forall>env3. disconnect env3 (snd (disconnect env2 ?s1)) = (Inr (), snd (disconnect env2 ?s1)))"
    if f: "first_rejected env2 (release_plan env2 ?s1) = None" and r: "readable env2"
  proof -
    from f r have acc: "\<not> rejects env2 ReaderCancel" "\<not> rejects env2 ReaderReleaseLock"
      "\<not> rejects env2 WriterClose" "\<not> rejects env2 PortClose"
      by (simp_all add: plan first_rejected_def split: if_splits)
    have d: "disconnect env2 ?s1 =
      (Inr (), s\<lparr>iolog := iolog s @ [RequestPort, PortOpen (parseInt b), GetWriter, GetReader,
                  ReaderCancel, ReaderReleaseLock, WriterClose, PortClose]\<rparr>)"
      unfolding c using assms(2,3) acc r
      by (simp add: io_defs disconnect_def closeNativeSerial_def cleanupESPTool_def idle_def)
    have i: "idle (snd (disconnect env2 ?s1))"
      using assms(2) by (simp add: d idle_def)
    show ?thesis
      using i disconnect_idle [OF i] by (simp add: d mode_def idle_def)
  qed
  have bad: "(\<exists>c. fst (disconnect env2 ?s1) = Inl (Rejected c)) \<and>
        mode (snd (disconnect env2 ?s1)) = Native"
    if f: "first_rejected env2 (release_plan env2 ?s1) \<noteq> None"
  proof -
    from f obtain c' where "first_rejected env2 (release_plan env2 ?s1) = Some c'" by auto
    then have e: "fst (disconnect env2 ?s1) = Inl (Rejected c')"
      by (simp add: disconnect_fst)
    then have "fst (disconnect env2 ?s1) \<noteq> Inr ()" by simp
    from disconnect_failed_connected [OF this]
    have "isConnected (snd (disconnect env2 ?s1)) \<and> espLoaderRef (snd (disconnect env2 ?s1)) = None"
      using assms(2) by (simp add: c idle_def)
    with e show ?thesis by (simp add: mode_def)
  qed
  have port: "serialPortRef (snd (disconnect env2 ?s1)) = Some (pickedPort env1)"
    if "\<not> readable env2"
    using disconnect_keeps_port [OF that, of ?s1] p by (simp add: c)
  show ?thesis
    using parseInt_baud_rates [OF assms(1)] plan log good bad port by blast
qed

theorem connect_then_disconnect_witness:
  "''115200'' \<in> set baud_rates \<and> idle initial \<and> baudrate initial = ''115200'' \<and>
   fst (connect quiet_env initial) = Inr () \<and>
   first_rejected quiet_env (release_plan quiet_env (snd (connect quiet_env initial))) = None \<and>
   readable quiet_env \<and>
   fst (disconnect quiet_env (snd (connect quiet_env initial))) = Inr () \<and>
   idle (snd (disconnect quiet_env (snd (connect quiet_env initial)))) \<and>
   iolog (snd (disconnect quiet_env (snd (connect quiet_env initial)))) =
     [RequestPort, PortOpen (Some 115200), GetWriter, GetReader,
      ReaderCancel, ReaderReleaseLock, WriterClose, PortClose] \<and>
   disconnect failing_close_env (snd (disconnect quiet_env (snd (connect quiet_env initial)))) =
     (Inr (), snd (disconnect quiet_env (snd (connect quiet_env initial))))"
proof -
  have b: "''115200'' \<in> set baud_rates" by (simp add: baud_rates_def)
  have i: "idle initial" "baudrate initial = ''115200''" "iolog initial = []"
    by (simp_all add: idle_def initial_def)
  have c: "fst (connect quiet_env initial) = Inr ()"
    by (simp add: io_defs op_defs quiet_env_def initial_def)
  have q: "first_rejected quiet_env (release_plan quiet_env (snd (connect quiet_env initial))) = None"
    "readable quiet_env"
    by (simp_all add: first_rejected_def release_plan_def close_plan_def connected_def [symmetric]
          connected_state initial_def quiet_env_def)
  from connect_then_disconnect [OF b i(1,2) c, of quiet_env] b i c q parseInt_115200
  show ?thesis by simp
qed

text \<open>
  C9, as stated, fails. After a successful \<open>connect\<close> at 115200 baud, a \<open>disconnect\<close>
  in which the port rejects \<open>close()\<close> throws, and the session is not Disconnected but
  in Native mode, the port cell still set. And a \<open>disconnect\<close> that finds the port's
  \<open>readable\<close> unset succeeds without closing the port: the port cell stays set, and
  a second \<open>disconnect\<close> is not a no-op, it closes the port and changes the state.
\<close>

theorem connect_then_disconnect_counterexample:
  "''115200'' \<in> set baud_rates \<and> baudrate initial = ''115200'' \<and>
   fst (connect quiet_env initial) = Inr () \<and>
   fst (disconnect failing_port_env (snd (connect quiet_env initial))) = Inl (Rejected PortClose) \<and>
   mode (snd (disconnect failing_port_env (snd (connect quiet_env initial)))) = Native \<and>
   serialPortRef (snd (disconnect failing_port_env (snd (connect quiet_env initial)))) = Some 1 \<and>
   fst (disconnect unreadable_env (snd (connect quiet_env initial))) = Inr () \<and>
   serialPortRef (snd (disconnect unreadable_env (snd (connect quiet_env initial)))) = Some 1 \<and>
   disconnect quiet_env (snd (disconnect unreadable_env (snd (connect quiet_env initial)))) \<noteq>
     (Inr (), snd (disconnect unreadable_env (snd (connect quiet_env initial))))"
  unfolding connected_def [symmetric]
  by (simp add: io_defs op_defs connected_state failing_port_env_def unreadable_env_def
        quiet_env_def initial_def mode_def baud_rates_def)

subsection \<open>programFlash\<close>

text \<open>
  C6. Every run of \<open>programFlash\<close>, whatever the environment does and whether the run
  returns or throws, ends with \<open>progress\<close> reset to 0 and \<open>isProgramming\<close> false: the
  \<open>finally\<close> block runs on both paths.
\<close>

theorem programFlash_resets_progress_and_flag:
  "progress (snd (programFlash env fileData s)) = 0 \<and>
   \<not> isProgramming (snd (programFlash env fileData s))"
  by (simp add: programFlash_def steps.simps snd_bind_modify snd_try_finally)

text \<open>
  A run that fails in the middle of the write, after progress was reported: the loader
  rejects \<open>writeFlash\<close>, the error reaches the caller, and the flags are reset.
\<close>

theorem programFlash_resets_witness:
  "fst (programFlash (quiet_env\<lparr>rejects := (\<lambda>c. c = LoaderWriteFlash ''fw'' 0x10000)\<rparr>) ''fw'' connected)
     = Inl (Rejected (LoaderWriteFlash ''fw'' 0x10000)) \<and>
   progress (snd (programFlash (quiet_env\<lparr>rejects := (\<lambda>c. c = LoaderWriteFlash ''fw'' 0x10000)\<rparr>) ''fw'' connected)) = 0 \<and>
   \<not> isProgramming (snd (programFlash (quiet_env\<lparr>rejects := (\<lambda>c. c = LoaderWriteFlash ''fw'' 0x10000)\<rparr>) ''fw'' connected))"
  using programFlash_resets_progress_and_flag
    [of "quiet_env\<lparr>rejects := (\<lambda>c. c = LoaderWriteFlash ''fw'' 0x10000)\<rparr>" "''fw''" connected]
  by (simp add: io_defs op_defs quiet_env_def connected_def initial_def)

subsection \<open>The checksum\<close>

lemma foldl_snoc_map: "foldl (\<lambda>acc b. acc @ [f b]) acc bs = acc @ map f bs"
  by (induction bs arbitrary: acc) simp_all

lemma binaryString_map: "binaryString bs = map fromCharCode bs"
  by (simp add: binaryString_def foldl_snoc_map)

lemma byte_mask: "(0xFF :: code_unit) = mask 8"
  by (simp add: mask_eq_exp_minus_1)

lemma low_byte: "ucast ((ucast (b :: byte) :: code_unit) AND 0xFF) = b"
  unfolding byte_mask by (rule bit_word_eqI) (auto simp: bit_simps)

lemma low_byte_any: "(ucast ((c :: code_unit) AND 0xFF) :: byte) = ucast c"
  unfolding byte_mask by (rule bit_word_eqI) (auto simp: bit_simps)

lemma Latin1_binaryString: "Latin1_parse (binaryString bs) = bs"
  by (simp add: Latin1_parse_def binaryString_map fromCharCode_def low_byte map_idI)

lemma hex_digit_lower: "hex_digit n \<in> set ''0123456789abcdef''"
proof -
  have "n mod 16 < length ''0123456789abcdef''" by simp
  then show ?thesis unfolding hex_digit_def by (rule nth_mem)
qed

lemma set_hex_string: "set (hex_string ds) \<subseteq> set ''0123456789abcdef''"
proof
  fix x assume "x \<in> set (hex_string ds)"
  then obtain n where "x = hex_digit n" by (auto simp: hex_string_def)
  then show "x \<in> set ''0123456789abcdef''" using hex_digit_lower by blast
qed

lemma length_hex_string: "length (hex_string ds) = 2 * length ds"
  by (induction ds) (simp_all add: hex_string_def)

lemma hex_val_all: "\<forall>n \<in> set [0..<16]. hex_val (hex_digit n) = n"
  by code_simp

lemma hex_val_hex_digit: "n < 16 \<Longrightarrow> hex_val (hex_digit n) = n"
  using hex_val_all by simp

lemma hex_byte_inj:
  fixes a b :: byte
  assumes "hex_digit (unat a div 16) = hex_digit (unat b div 16)"
    and "hex_digit (unat a mod 16) = hex_digit (unat b mod 16)"
  shows "a = b"
proof -
  have la: "unat a < 256" and lb: "unat b < 256"
    using unsigned_less [of a, where 'a = nat] unsigned_less [of b, where 'a = nat] by simp_all
  then have "unat a div 16 < 16" "unat b div 16 < 16" by simp_all
  with assms(1) have d: "unat a div 16 = unat b div 16"
    using hex_val_hex_digit by metis
  have "unat a mod 16 < 16" "unat b mod 16 < 16" by simp_all
  with assms(2) have m: "unat a mod 16 = unat b mod 16"
    using hex_val_hex_digit by metis
  have "unat a = 16 * (unat a div 16) + unat a mod 16" by simp
  also have "\<dots> = 16 * (unat b div 16) + unat b mod 16" by (simp only: d m)
  also have "\<dots> = unat b" by simp
  finally show ?thesis by (simp add: word_unat_eq_iff)
qed

lemma hex_string_inj: "(hex_string xs = hex_string ys) = (xs = ys)"
proof (induction xs arbitrary: ys)
  case Nil
  show ?case by (cases ys) (simp_all add: hex_string_def)
next
  case (Cons a xs)
  show ?case
  proof (cases ys)
    case Nil
    then show ?thesis by (simp add: hex_string_def)
  next
    case (Cons b ys')
    have t: "hex_string (c # cs) =
        hex_digit (unat c div 16) # hex_digit (unat c mod 16) # hex_string cs" for c cs
      by (simp add: hex_string_def)
    show ?thesis
      using Cons.IH [of ys'] hex_byte_inj [of a b] by (auto simp: Cons t)
  qed
qed

text \<open>
  C7. The checksum callback is a function of the image alone (the digest function of
  crypto-js given): equal images have equal checksums. It applies the digest to the
  image read as single-byte characters, the low byte of each code unit, which for the
  binary string that \<open>loadFirmware\<close> builds from the file are the very bytes of the
  file, and writes the digest as lowercase hexadecimal digits, two per byte. The
  rendering loses nothing: two images have the same checksum exactly when they have the
  same digest.
\<close>

theorem calculateMD5Hash_latin1_hex:
  "calculateMD5Hash MD5 (binaryString bytes) = hex_string (MD5 bytes) \<and>
   calculateMD5Hash MD5 img = hex_string (MD5 (map ucast img)) \<and>
   length (calculateMD5Hash MD5 img) = 2 * length (MD5 (map ucast img)) \<and>
   set (calculateMD5Hash MD5 img) \<subseteq> set ''0123456789abcdef'' \<and>
   (calculateMD5Hash MD5 img = calculateMD5Hash MD5 img') =
     (MD5 (map ucast img) = MD5 (map ucast img'))"
proof -
  have p: "Latin1_parse img = map ucast img" for img
    by (simp add: Latin1_parse_def low_byte_any)
  have "calculateMD5Hash MD5 (binaryString bytes) = hex_string (MD5 bytes)"
    by (simp only: calculateMD5Hash_def Latin1_binaryString)
  moreover have "calculateMD5Hash MD5 img = hex_string (MD5 (map ucast img))"
    by (simp only: calculateMD5Hash_def p)
  moreover have "(calculateMD5Hash MD5 img = calculateMD5Hash MD5 img') =
      (MD5 (map ucast img) = MD5 (map ucast img'))"
    by (simp only: calculateMD5Hash_def p hex_string_inj)
  ultimately show ?thesis
    using set_hex_string [of "MD5 (map ucast img)"] length_hex_string [of "MD5 (map ucast img)"]
    by (simp del: set_simps)
qed

theorem calculateMD5Hash_witness:
  "calculateMD5Hash (\<lambda>bs. [0xd4, 0x1d, 0x8c, 0xd9]) (binaryString [0x41, 0xFF]) = ''d41d8cd9'' \<and>
   hex_string [0x0a, 0xff, 0x00] = ''0aff00''"
  using calculateMD5Hash_latin1_hex [of "\<lambda>bs. [0xd4, 0x1d, 0x8c, 0xd9]" "[0x41, 0xFF]" "[]" "[]"]
  by (simp add: hex_string_def hex_digit_def)

end
